theory Spec2Isabelle
  imports Main "HOL-Library.Word"
begin

unbundle bit_operations_syntax

section \<open>sercat: serial read/write test program (sercat.c)\<close>

subsection \<open>Speed table (sercat.c, lines 49-114)\<close>

text \<open>
  \<open>speed_t\<close> and \<open>unsigned int\<close> are 32-bit unsigned integers. The \<open>B...\<close> names are
  macros of \<open><termios.h>\<close>, which is not part of the repository: the table is built
  relative to a platform \<open>P\<close> that says what each macro expands to, or \<open>None\<close> when
  the header does not define it. The first sixteen rows are unconditional in the source
  (a platform without one of them does not compile the program), the other fifteen
  stand under \<open>#ifdef\<close> and are left out where the macro is undefined.
\<close>

type_synonym speed_t = "32 word"

datatype speed_macro =
    B0 | B50 | B75 | B110 | B134 | B150 | B200 | B300 | B600 | B1200 | B1800
  | B2400 | B4800 | B9600 | B19200 | B38400
  | B57600 | B115200 | B230400 | B460800 | B500000 | B576000 | B921600
  | B1000000 | B1152000 | B1500000 | B2000000 | B2500000 | B3000000
  | B3500000 | B4000000

type_synonym platform = "speed_macro \<Rightarrow> speed_t option"

record speed =
  sym :: speed_t
  val :: "32 word"

definition speed_rows :: "(speed_macro \<times> 32 word) list" where
  "speed_rows =
    [ (B0, 0), (B50, 50), (B75, 75), (B110, 110), (B134, 134), (B150, 150),
      (B200, 200), (B300, 300), (B600, 600), (B1200, 1200), (B1800, 1800),
      (B2400, 2400), (B4800, 4800), (B9600, 9600), (B19200, 19200),
      (B38400, 38400),
      (B57600, 57600), (B115200, 115200), (B230400, 230400),
      (B460800, 460800), (B500000, 500000), (B576000, 576000),
      (B921600, 921600), (B1000000, 1000000), (B1152000, 1152000),
      (B1500000, 1500000), (B2000000, 2000000), (B2500000, 2500000),
      (B3000000, 3000000), (B3500000, 3500000), (B4000000, 4000000) ]"

fun build_speeds :: "platform \<Rightarrow> (speed_macro \<times> 32 word) list \<Rightarrow> speed list" where
  "build_speeds P [] = []"
| "build_speeds P ((m, v) # rows) =
     (case P m of
        None \<Rightarrow> build_speeds P rows
      | Some s \<Rightarrow> \<lparr>sym = s, val = v\<rparr> # build_speeds P rows)"

definition speeds :: "platform \<Rightarrow> speed list" where
  "speeds P = build_speeds P speed_rows"

text \<open>
  The macro values of Linux's \<open>asm-generic/termbits.h\<close> (octal \<open>0000000\<close> to
  \<open>0000017\<close>, then \<open>0010001\<close> to \<open>0010017\<close>), all defined: the platform at which the
  theorems below are instantiated.
\<close>

fun linux_termbits :: platform where
  "linux_termbits B0 = Some 0"
| "linux_termbits B50 = Some 1"
| "linux_termbits B75 = Some 2"
| "linux_termbits B110 = Some 3"
| "linux_termbits B134 = Some 4"
| "linux_termbits B150 = Some 5"
| "linux_termbits B200 = Some 6"
| "linux_termbits B300 = Some 7"
| "linux_termbits B600 = Some 8"
| "linux_termbits B1200 = Some 9"
| "linux_termbits B1800 = Some 10"
| "linux_termbits B2400 = Some 11"
| "linux_termbits B4800 = Some 12"
| "linux_termbits B9600 = Some 13"
| "linux_termbits B19200 = Some 14"
| "linux_termbits B38400 = Some 15"
| "linux_termbits B57600 = Some 4097"
| "linux_termbits B115200 = Some 4098"
| "linux_termbits B230400 = Some 4099"
| "linux_termbits B460800 = Some 4100"
| "linux_termbits B500000 = Some 4101"
| "linux_termbits B576000 = Some 4102"
| "linux_termbits B921600 = Some 4103"
| "linux_termbits B1000000 = Some 4104"
| "linux_termbits B1152000 = Some 4105"
| "linux_termbits B1500000 = Some 4106"
| "linux_termbits B2000000 = Some 4107"
| "linux_termbits B2500000 = Some 4108"
| "linux_termbits B3000000 = Some 4109"
| "linux_termbits B3500000 = Some 4110"
| "linux_termbits B4000000 = Some 4111"

subsection \<open>Lookups (sercat.c, lines 116-134)\<close>

text \<open>
  Both functions scan the table from index 0 and return at the first match.
  \<open>get_speed_val\<close> returns \<open>int\<close>: the \<open>unsigned int\<close> field is converted to
  \<open>int\<close> (\<open>sint\<close>), and not found is \<open>-1\<close>. \<open>get_speed_sym\<close> returns \<open>speed_t\<close>:
  its \<open>return -1\<close> is the all-ones word.
\<close>

fun scan_val :: "speed list \<Rightarrow> speed_t \<Rightarrow> int" where
  "scan_val [] speed = -1"
| "scan_val (e # es) speed = (if sym e = speed then sint (val e) else scan_val es speed)"

definition get_speed_val :: "platform \<Rightarrow> speed_t \<Rightarrow> int" where
  "get_speed_val P speed = scan_val (speeds P) speed"

fun scan_sym :: "speed list \<Rightarrow> 32 word \<Rightarrow> speed_t" where
  "scan_sym [] speed = -1"
| "scan_sym (e # es) speed = (if val e = speed then sym e else scan_sym es speed)"

definition get_speed_sym :: "platform \<Rightarrow> 32 word \<Rightarrow> speed_t" where
  "get_speed_sym P speed = scan_sym (speeds P) speed"

subsection \<open>Options (sercat.c, lines 29-37)\<close>

text \<open>
  The option variables have static storage, so they start as null and zero. The flags
  are only ever set to 1 and tested for being non-zero: they are booleans here.
  \<open>opt_speed\<close> is a \<open>uint32_t\<close>.
\<close>

record opts =
  opt_dev :: "string option"
  opt_speed :: "32 word"
  opt_read :: bool
  opt_write :: bool
  opt_hwflow :: bool
  opt_noflow :: bool
  opt_verbose :: bool

definition opts0 :: opts where
  "opts0 = \<lparr>opt_dev = None, opt_speed = 0, opt_read = False, opt_write = False,
             opt_hwflow = False, opt_noflow = False, opt_verbose = False\<rparr>"

definition BUF_SIZE :: nat where
  "BUF_SIZE = 1024"

subsection \<open>The environment: libc and the operating system\<close>

text \<open>
  None of the functions the program calls is part of the repository, so their results
  are parameters of the model, collected in the record \<open>sys\<close>. Each field gives the
  return value of the call and the \<open>errno\<close> it leaves, as the C code reads them.
  \<open>ENOTTY\<close>, \<open>O_RDONLY\<close>, \<open>O_WRONLY\<close> and \<open>CRTSCTS\<close> carry their Linux values; no
  theorem depends on the numbers.
\<close>

type_synonym byte = "8 word"
type_synonym errno = int

definition ENOTTY :: errno where
  "ENOTTY = 25"

definition O_RDONLY :: int where
  "O_RDONLY = 0"

definition O_WRONLY :: int where
  "O_WRONLY = 1"

definition CRTSCTS :: "32 word" where
  "CRTSCTS = 0x80000000"

record termios =
  c_iflag :: "32 word"
  c_oflag :: "32 word"
  c_cflag :: "32 word"
  c_lflag :: "32 word"
  c_line :: byte
  c_cc :: "byte list"
  c_ispeed :: speed_t
  c_ospeed :: speed_t

text \<open>The three places where \<open>device_open\<close> calls \<open>tcsetattr\<close> (lines 201, 213, 233).\<close>

datatype tcset_site = SetRaw | SetFlow | SetSpeed

text \<open>
  \<open>sys_read\<close> is asked with the bytes the source endpoint still holds and the requested
  count, \<open>sys_write\<close> with the bytes the sink endpoint has received and the data
  offered; both answer with the return value of the call.
\<close>

record sys =
  sys_open :: "string \<Rightarrow> int \<Rightarrow> int \<times> errno"
  sys_tcgetattr :: "int \<Rightarrow> int \<times> errno \<times> termios"
  sys_tcsetattr :: "tcset_site \<Rightarrow> int \<Rightarrow> termios \<Rightarrow> int \<times> errno"
  sys_tcflush :: "int \<Rightarrow> int \<times> errno"
  sys_read :: "byte list \<Rightarrow> nat \<Rightarrow> int \<times> errno"
  sys_write :: "byte list \<Rightarrow> byte list \<Rightarrow> int \<times> errno"
  lib_cfmakeraw :: "termios \<Rightarrow> termios"
  lib_cfsetspeed :: "termios \<Rightarrow> speed_t \<Rightarrow> int \<times> errno \<times> termios"
  lib_cfgetispeed :: "termios \<Rightarrow> speed_t"
  lib_cfgetospeed :: "termios \<Rightarrow> speed_t"
  lib_strtoul :: "string \<Rightarrow> nat"

subsection \<open>Effects\<close>

text \<open>
  A run of the program is the list of its effects in program order, followed either by
  the argument of the \<open>exit\<close> call that ended it or by the value the function returned.
  \<open>Stdout\<close> and \<open>Stderr\<close> are \<open>printf\<close> and \<open>fprintf(stderr, ...)\<close> with the format and
  the values passed; the other events are the calls made, with their arguments
  (\<open>tcsetattr\<close> is always called with \<open>TCSANOW\<close>, \<open>tcflush\<close> with \<open>TCIOFLUSH\<close>).
  \<open>SysRead\<close> and \<open>SysWrite\<close> also record the value the call returned.
\<close>

datatype arg = ArgStr string | ArgNum int | ArgStrerror errno | ArgProgname

datatype event =
    Stdout string "arg list"
  | Stderr string "arg list"
  | SysOpen string int
  | SysTcgetattr int
  | LibCfmakeraw
  | SysTcsetattr int termios
  | LibCfsetspeed speed_t
  | SysTcflush int
  | SysRead int nat int
  | SysWrite int "byte list" int
  | SysClose int

datatype 'a outcome = Exit int | Ret 'a

type_synonym 'a run = "event list \<times> 'a outcome"

definition seq :: "'a run \<Rightarrow> ('a \<Rightarrow> 'b run) \<Rightarrow> 'b run" where
  "seq m f =
     (case m of
        (t, Exit c) \<Rightarrow> (t, Exit c)
      | (t, Ret v) \<Rightarrow> (case f v of (t', r) \<Rightarrow> (t @ t', r)))"

subsection \<open>Logging macros and usage (sercat.c, lines 39-47 and 136-167)\<close>

definition ESC_RED :: string where
  "ESC_RED = CHR 0x1B # ''[31m''"

definition ESC_RM :: string where
  "ESC_RM = CHR 0x1B # ''[0m''"

definition pr_debug :: "opts \<Rightarrow> string \<Rightarrow> arg list \<Rightarrow> event list" where
  "pr_debug opt fmt args = (if opt_verbose opt then [Stdout fmt args] else [])"

definition pr_info :: "string \<Rightarrow> arg list \<Rightarrow> event list" where
  "pr_info fmt args = [Stdout fmt args]"

definition pr_error :: "string \<Rightarrow> arg list \<Rightarrow> event list" where
  "pr_error fmt args = [Stderr (ESC_RED @ fmt @ ESC_RM) args]"

definition usage_text :: string where
  "usage_text =
     ''\<newline>'' @
     ''%s: [options] <dev>\<newline>\<newline>'' @
     ''Valid options are:\<newline>'' @
     ''    -h, --help       Display this usage information\<newline>'' @
     ''    -f, --hwflow     Enable hardware flow control (RTS/CTS)\<newline>'' @
     ''    -n, --noflow     Disable hardware flow control\<newline>'' @
     ''    -r, --read       Read mode (default)\<newline>'' @
     ''    -s, --speed      Serial speed\<newline>'' @
     ''    -v, --verbose    Enable verbose mode\<newline>'' @
     ''    -w, --write      Write mode\<newline>'' @
     ''\<newline>''"

definition usage :: "'a run" where
  "usage = ([Stderr usage_text [ArgProgname]], Exit 1)"

subsection \<open>device_open (sercat.c, lines 169-251)\<close>

text \<open>
  The function is one straight line of steps, each of which may end the process. The
  model has one definition for each step and \<open>device_open\<close> runs them in the order of
  the source. A step returns the attributes it leaves in the local variable
  \<open>termios\<close>.
\<close>

text \<open>Lines 174-182: open the path.\<close>

definition open_path :: "sys \<Rightarrow> opts \<Rightarrow> string \<Rightarrow> int \<Rightarrow> int run" where
  "open_path E opt pathname flags =
     (case sys_open E pathname flags of
        (fd, e) \<Rightarrow>
          if fd < 0 then
            (pr_debug opt ''Opening %s...\<newline>'' [ArgStr pathname] @
             [SysOpen pathname flags] @
             pr_error ''Failed to open %s%s: %s\<newline>''
               [ArgStr pathname,
                ArgStr (if flags = O_WRONLY then '' for writing''
                        else if flags = O_RDONLY then '' for reading'' else ''''),
                ArgStrerror e],
             Exit (- 1))
          else
            (pr_debug opt ''Opening %s...\<newline>'' [ArgStr pathname] @
             [SysOpen pathname flags],
             Ret fd))"

text \<open>
  Lines 184-197: query the attributes. \<open>Ret None\<close> is the \<open>return fd\<close> of line 188,
  which leaves \<open>device_open\<close> at once.
\<close>

definition get_attrs :: "sys \<Rightarrow> opts \<Rightarrow> string \<Rightarrow> int \<Rightarrow> termios option run" where
  "get_attrs E opt pathname fd =
     (case sys_tcgetattr E fd of
        (r, e, termios) \<Rightarrow>
          if r \<noteq> 0 then
            (if e = ENOTTY then
               ([SysTcgetattr fd] @
                pr_info ''%s is not a tty, skipping tty config\<newline>'' [ArgStr pathname],
                Ret None)
             else
               ([SysTcgetattr fd] @
                pr_error ''Failed to get terminal attributes: %s\<newline>'' [ArgStrerror e],
                Exit (- 1)))
          else
            ([SysTcgetattr fd] @
             pr_debug opt ''termios.c_iflag = 0%o\<newline>'' [ArgNum (uint (c_iflag termios))] @
             pr_debug opt ''termios.c_oflag = 0%o\<newline>'' [ArgNum (uint (c_oflag termios))] @
             pr_debug opt ''termios.c_cflag = 0%o\<newline>'' [ArgNum (uint (c_cflag termios))] @
             pr_debug opt ''termios.c_lflag = 0%o\<newline>'' [ArgNum (uint (c_lflag termios))],
             Ret (Some termios)))"

text \<open>Lines 199-204: raw mode.\<close>

definition raw_mode :: "sys \<Rightarrow> opts \<Rightarrow> int \<Rightarrow> termios \<Rightarrow> termios run" where
  "raw_mode E opt fd termios =
     (let termios' = lib_cfmakeraw E termios in
      case sys_tcsetattr E SetRaw fd termios' of
        (r, e) \<Rightarrow>
          if r \<noteq> 0 then
            (pr_debug opt ''Enable terminal raw mode\<newline>'' [] @
             [LibCfmakeraw, SysTcsetattr fd termios'] @
             pr_error ''Failed to enable raw mode: %s\<newline>'' [ArgStrerror e],
             Exit (- 1))
          else
            (pr_debug opt ''Enable terminal raw mode\<newline>'' [] @
             [LibCfmakeraw, SysTcsetattr fd termios'],
             Ret termios'))"

text \<open>Lines 206-218: hardware flow control.\<close>

definition flow_control :: "sys \<Rightarrow> opts \<Rightarrow> int \<Rightarrow> termios \<Rightarrow> termios run" where
  "flow_control E opt fd termios =
     (if opt_hwflow opt \<or> opt_noflow opt then
        (let termios' =
               (if opt_hwflow opt
                then termios\<lparr>c_cflag := c_cflag termios OR CRTSCTS\<rparr>
                else termios\<lparr>c_cflag := c_cflag termios AND NOT CRTSCTS\<rparr>)
         in case sys_tcsetattr E SetFlow fd termios' of
           (r, e) \<Rightarrow>
             if r \<noteq> 0 then
               (pr_debug opt ''%sabling hardware flow control\<newline>''
                  [ArgStr (if opt_hwflow opt then ''En'' else ''Dis'')] @
                [SysTcsetattr fd termios'] @
                pr_error ''Failed to %sable hardware flow control: %s\<newline>''
                  [ArgStr (if opt_hwflow opt then ''en'' else ''dis''), ArgStrerror e],
                Exit (- 1))
             else
               (pr_debug opt ''%sabling hardware flow control\<newline>''
                  [ArgStr (if opt_hwflow opt then ''En'' else ''Dis'')] @
                [SysTcsetattr fd termios'],
                Ret termios'))
      else ([], Ret termios))"

text \<open>
  Lines 220-242: the speed. The result of \<open>get_speed_sym\<close> is stored in an \<open>int\<close>
  (\<open>sint\<close>), compared with \<open>-1\<close>, and converted back to \<open>speed_t\<close> for \<open>cfsetspeed\<close>.
\<close>

definition set_speed :: "platform \<Rightarrow> sys \<Rightarrow> opts \<Rightarrow> int \<Rightarrow> termios \<Rightarrow> termios run" where
  "set_speed P E opt fd termios =
     (if opt_speed opt \<noteq> 0 then
        (let sym = sint (get_speed_sym P (opt_speed opt)) in
         if sym = - 1 then
           (pr_error ''Unknown serial speed %u\<newline>'' [ArgNum (uint (opt_speed opt))],
            Exit (- 1))
         else
           (case lib_cfsetspeed E termios (word_of_int sym) of
              (r, e, termios') \<Rightarrow>
                if r \<noteq> 0 then
                  (pr_debug opt ''Setting serial speed to %u bps\<newline>''
                     [ArgNum (uint (opt_speed opt))] @
                   [LibCfsetspeed (word_of_int sym)] @
                   pr_error ''Failed to set serial speed: %s\<newline>'' [ArgStrerror e],
                   Exit (- 1))
                else
                  (case sys_tcsetattr E SetSpeed fd termios' of
                     (r', e') \<Rightarrow>
                       if r' \<noteq> 0 then
                         (pr_debug opt ''Setting serial speed to %u bps\<newline>''
                            [ArgNum (uint (opt_speed opt))] @
                          [LibCfsetspeed (word_of_int sym), SysTcsetattr fd termios'] @
                          pr_error ''Failed to set speed attribute: %s\<newline>''
                            [ArgStrerror e'],
                          Exit (- 1))
                       else
                         (pr_debug opt ''Setting serial speed to %u bps\<newline>''
                            [ArgNum (uint (opt_speed opt))] @
                          [LibCfsetspeed (word_of_int sym), SysTcsetattr fd termios'],
                          Ret termios'))))
      else
        (pr_debug opt ''Serial speed is %u/%u\<newline>''
           [ArgNum (get_speed_val P (lib_cfgetispeed E termios)),
            ArgNum (get_speed_val P (lib_cfgetospeed E termios))],
         Ret termios))"

text \<open>Lines 244-248: flush.\<close>

definition flush :: "sys \<Rightarrow> opts \<Rightarrow> int \<Rightarrow> unit run" where
  "flush E opt fd =
     (case sys_tcflush E fd of
        (r, e) \<Rightarrow>
          if r \<noteq> 0 then
            (pr_debug opt ''Flushing terminal\<newline>'' [] @ [SysTcflush fd] @
             pr_error ''Failed to flush: %s\<newline>'' [ArgStrerror e],
             Exit (- 1))
          else
            (pr_debug opt ''Flushing terminal\<newline>'' [] @ [SysTcflush fd], Ret ()))"

definition device_open :: "platform \<Rightarrow> sys \<Rightarrow> opts \<Rightarrow> string \<Rightarrow> int \<Rightarrow> int run" where
  "device_open P E opt pathname flags =
     seq (open_path E opt pathname flags) (\<lambda>fd.
     seq (get_attrs E opt pathname fd) (\<lambda>attrs.
       case attrs of
         None \<Rightarrow> ([], Ret fd)
       | Some termios \<Rightarrow>
           seq (raw_mode E opt fd termios) (\<lambda>termios1.
           seq (flow_control E opt fd termios1) (\<lambda>termios2.
           seq (set_speed P E opt fd termios2) (\<lambda>termios3.
           seq (flush E opt fd) (\<lambda>_. ([], Ret fd)))))))"

subsection \<open>The relay loop (sercat.c, lines 304-323)\<close>

text \<open>
  The source endpoint holds the bytes it will still yield before end-of-stream; the sink
  endpoint holds the bytes it has received. \<open>read\<close> returns a negative value and
  transfers nothing on an error; otherwise it moves a prefix of the pending bytes into
  the buffer, never more than was asked for nor more than there is, and returns its
  length. \<open>write\<close> appends a prefix of the data offered to the sink in the same way.
  How long the prefix is, or which error occurs, is the environment's choice
  (\<open>sys_read\<close>, \<open>sys_write\<close>). A source holds finitely many bytes here, and \<open>read\<close>
  returns; a source that never ends, or a call that blocks for ever, is outside the
  model, and with it a loop that does not end.
\<close>

record rd =
  rd_ret :: int
  rd_errno :: errno
  rd_data :: "byte list"
  rd_rest :: "byte list"

definition do_read :: "sys \<Rightarrow> byte list \<Rightarrow> nat \<Rightarrow> rd" where
  "do_read E src count =
     (case sys_read E src count of
        (r, e) \<Rightarrow>
          if r < 0 then \<lparr>rd_ret = r, rd_errno = e, rd_data = [], rd_rest = src\<rparr>
          else
            (let k = min (nat r) (min count (length src))
             in \<lparr>rd_ret = int k, rd_errno = e, rd_data = take k src, rd_rest = drop k src\<rparr>))"

record wr =
  wr_ret :: int
  wr_errno :: errno
  wr_snk :: "byte list"

definition do_write :: "sys \<Rightarrow> byte list \<Rightarrow> byte list \<Rightarrow> wr" where
  "do_write E snk data =
     (case sys_write E snk data of
        (r, e) \<Rightarrow>
          if r < 0 then \<lparr>wr_ret = r, wr_errno = e, wr_snk = snk\<rparr>
          else
            (let k = min (nat r) (length data)
             in \<lparr>wr_ret = int k, wr_errno = e, wr_snk = snk @ take k data\<rparr>))"

text \<open>
  The result of the loop: its effects, \<open>Some c\<close> when it called \<open>exit(c)\<close> and \<open>None\<close>
  when it was left by \<open>break\<close>, and the two endpoints as it leaves them. The buffer
  \<open>buf\<close> keeps what earlier iterations stored beyond the bytes just read.
\<close>

record relay_result =
  r_events :: "event list"
  r_exit :: "int option"
  r_src :: "byte list"
  r_snk :: "byte list"

function relay :: "sys \<Rightarrow> int \<Rightarrow> int \<Rightarrow> byte list \<Rightarrow> byte list \<Rightarrow> byte list \<Rightarrow> relay_result" where
  "relay E rx_fd tx_fd buf src snk =
     (let r = do_read E src BUF_SIZE; inn = rd_ret r in
      if inn = 0 then
        \<lparr>r_events = [SysRead rx_fd BUF_SIZE inn], r_exit = None,
         r_src = rd_rest r, r_snk = snk\<rparr>
      else if inn < 0 then
        \<lparr>r_events = [SysRead rx_fd BUF_SIZE inn] @
                    pr_error ''Read error: %s\<newline>'' [ArgStrerror (rd_errno r)],
         r_exit = Some (- 1), r_src = rd_rest r, r_snk = snk\<rparr>
      else
        (let buf' = rd_data r @ drop (nat inn) buf;
             w = do_write E snk (take (nat inn) buf');
             out = wr_ret w
         in if out < 0 then
              \<lparr>r_events = [SysRead rx_fd BUF_SIZE inn, SysWrite tx_fd (take (nat inn) buf') out] @
                          pr_error ''Write error: %s\<newline>'' [ArgStrerror (wr_errno w)],
               r_exit = Some (- 1), r_src = rd_rest r, r_snk = wr_snk w\<rparr>
            else if out < inn then
              \<lparr>r_events = [SysRead rx_fd BUF_SIZE inn, SysWrite tx_fd (take (nat inn) buf') out] @
                          pr_error ''Short write %zd < %zu\<newline>'' [ArgNum out, ArgNum inn],
               r_exit = Some (- 1), r_src = rd_rest r, r_snk = wr_snk w\<rparr>
            else
              (let res = relay E rx_fd tx_fd buf' (rd_rest r) (wr_snk w)
               in res\<lparr>r_events := [SysRead rx_fd BUF_SIZE inn, SysWrite tx_fd (take (nat inn) buf') out] @
                                     r_events res\<rparr>)))"
  by pat_completeness auto

termination relay
  apply (relation "measure (\<lambda>(E, rx_fd, tx_fd, buf, src, snk). length src)")
   apply simp
  subgoal premises prems for E rx_fd tx_fd buf src snk r inn
  proof -
    from prems(1-4) have "0 < rd_ret (do_read E src BUF_SIZE)"
      by simp
    then have "length (rd_rest (do_read E src BUF_SIZE)) < length src"
      by (cases "sys_read E src BUF_SIZE") (auto simp: do_read_def Let_def split: if_splits)
    with prems(1) show ?thesis
      by simp
  qed
  done

declare relay.simps [simp del]

subsection \<open>main (sercat.c, lines 253-328)\<close>

text \<open>
  Lines 259-291: the option loop, over the arguments after \<open>argv[0]\<close>. \<open>-s\<close> takes the
  next argument and stores \<open>strtoul\<close>'s \<open>unsigned long\<close> in the 32-bit \<open>opt_speed\<close>.
\<close>

fun parse_args :: "sys \<Rightarrow> opts \<Rightarrow> string list \<Rightarrow> opts run" where
  "parse_args E opt [] = ([], Ret opt)"
| "parse_args E opt (a # rest) =
     (if a = ''-h'' \<or> a = ''--help'' then usage
      else if a = ''-f'' \<or> a = ''--hwflow'' then parse_args E (opt\<lparr>opt_hwflow := True\<rparr>) rest
      else if a = ''-n'' \<or> a = ''--noflow'' then parse_args E (opt\<lparr>opt_noflow := True\<rparr>) rest
      else if a = ''-r'' \<or> a = ''--read'' then parse_args E (opt\<lparr>opt_read := True\<rparr>) rest
      else if a = ''-w'' \<or> a = ''--write'' then parse_args E (opt\<lparr>opt_write := True\<rparr>) rest
      else if a = ''-s'' \<or> a = ''--speed'' then
        (case rest of
           [] \<Rightarrow> usage
         | v # rest' \<Rightarrow> parse_args E (opt\<lparr>opt_speed := of_nat (lib_strtoul E v)\<rparr>) rest')
      else if a = ''-v'' \<or> a = ''--verbose'' then parse_args E (opt\<lparr>opt_verbose := True\<rparr>) rest
      else if opt_dev opt = None then parse_args E (opt\<lparr>opt_dev := Some a\<rparr>) rest
      else usage)"

text \<open>Lines 293-302: the checks on the options, and the two endpoints.\<close>

definition endpoints :: "platform \<Rightarrow> sys \<Rightarrow> opts \<Rightarrow> (int \<times> int) run" where
  "endpoints P E opt =
     (case opt_dev opt of
        None \<Rightarrow> usage
      | Some dev \<Rightarrow>
          if (opt_hwflow opt \<and> opt_noflow opt) \<or> (opt_read opt \<and> opt_write opt) then usage
          else if opt_write opt then
            seq (device_open P E opt dev O_WRONLY) (\<lambda>fd. ([], Ret (0, fd)))
          else
            seq (device_open P E opt dev O_RDONLY) (\<lambda>fd. ([], Ret (fd, 1))))"

text \<open>
  The result of the whole program: its effects, the argument of the \<open>exit\<close> call that
  ends it, and the bytes the sink endpoint received through \<open>write\<close>. (In read mode
  the sink is descriptor 1, to which the \<open>Stdout\<close> events also go, through stdio; they
  are kept apart in \<open>events\<close>.)
\<close>

record result =
  events :: "event list"
  status :: int
  sink :: "byte list"

text \<open>Lines 304-327: the loop, then \<open>close\<close> and \<open>exit(0)\<close>.\<close>

definition pump :: "sys \<Rightarrow> opts \<Rightarrow> int \<Rightarrow> int \<Rightarrow> byte list \<Rightarrow> byte list \<Rightarrow> result" where
  "pump E opt rx_fd tx_fd buf src =
     (let res = relay E rx_fd tx_fd buf src [] in
      case r_exit res of
        Some c \<Rightarrow> \<lparr>events = r_events res, status = c, sink = r_snk res\<rparr>
      | None \<Rightarrow>
          \<lparr>events = r_events res @ [SysClose (if opt_write opt then tx_fd else rx_fd)],
           status = 0, sink = r_snk res\<rparr>)"

text \<open>
  \<open>buf\<close> is the initial content of the uninitialised local array, \<open>src\<close> the bytes the
  source endpoint will yield.
\<close>

definition main :: "platform \<Rightarrow> sys \<Rightarrow> string list \<Rightarrow> byte list \<Rightarrow> byte list \<Rightarrow> result" where
  "main P E argv buf src =
     (case seq (parse_args E opts0 (drop 1 argv)) (\<lambda>opt.
             seq (endpoints P E opt) (\<lambda>fds. ([], Ret (opt, fds)))) of
        (t, Exit c) \<Rightarrow> \<lparr>events = t, status = c, sink = []\<rparr>
      | (t, Ret (opt, rx_fd, tx_fd)) \<Rightarrow>
          (let res = pump E opt rx_fd tx_fd buf src
           in res\<lparr>events := t @ events res\<rparr>))"

subsection \<open>Reading the effects\<close>

text \<open>The configuration calls of \<open>device_open\<close>: raw mode, flow control, speed, flush.\<close>

fun is_config :: "event \<Rightarrow> bool" where
  "is_config LibCfmakeraw = True"
| "is_config (SysTcsetattr fd t) = True"
| "is_config (LibCfsetspeed s) = True"
| "is_config (SysTcflush fd) = True"
| "is_config ev = False"

fun is_close :: "event \<Rightarrow> bool" where
  "is_close (SysClose fd) = True"
| "is_close ev = False"

text \<open>The data of the \<open>write\<close> calls, and the number of \<open>read\<close> calls, of a run.\<close>

fun writes_of :: "event list \<Rightarrow> byte list list" where
  "writes_of [] = []"
| "writes_of (SysWrite fd d out # evs) = d # writes_of evs"
| "writes_of (ev # evs) = writes_of evs"

fun reads_of :: "event list \<Rightarrow> nat" where
  "reads_of [] = 0"
| "reads_of (SysRead fd n inn # evs) = Suc (reads_of evs)"
| "reads_of (ev # evs) = reads_of evs"

subsection \<open>Example environments\<close>

text \<open>
  The environments at which the theorems below are instantiated. In \<open>tty_sys\<close> the
  path opens as descriptor 3, a terminal on which every call succeeds; \<open>read\<close>
  delivers at most four bytes at a time and \<open>write\<close> takes all it is offered;
  \<open>strtoul\<close> reads a prefix of decimal digits and gives 0 when there is none.
  \<open>file_sys\<close> is the same with a regular file behind the path, \<open>eio_sys\<close> with a
  device whose attributes cannot be read, and in \<open>short_sys\<close> the sink takes two
  bytes of each write. \<open>hello\<close> is the six bytes of \<open>"hello\n"\<close>.
\<close>

definition termios0 :: termios where
  "termios0 = \<lparr>c_iflag = 0, c_oflag = 0, c_cflag = 0, c_lflag = 0, c_line = 0,
                c_cc = replicate 32 0, c_ispeed = 0, c_ospeed = 0\<rparr>"

fun strtoul_dec :: "nat \<Rightarrow> string \<Rightarrow> nat" where
  "strtoul_dec acc [] = acc"
| "strtoul_dec acc (c # cs) =
     (if 48 \<le> (of_char c :: nat) \<and> (of_char c :: nat) \<le> 57
      then strtoul_dec (10 * acc + (of_char c - 48)) cs
      else acc)"

definition hello :: "byte list" where
  "hello = [104, 101, 108, 108, 111, 10]"

definition tty_sys :: sys where
  "tty_sys =
     \<lparr>sys_open = (\<lambda>pathname flags. (3, 0)),
      sys_tcgetattr = (\<lambda>fd. (0, 0, termios0)),
      sys_tcsetattr = (\<lambda>site fd t. (0, 0)),
      sys_tcflush = (\<lambda>fd. (0, 0)),
      sys_read = (\<lambda>pending count. (int (min 4 (min count (length pending))), 0)),
      sys_write = (\<lambda>received data. (int (length data), 0)),
      lib_cfmakeraw = (\<lambda>t. t),
      lib_cfsetspeed = (\<lambda>t s. (0, 0, t\<lparr>c_ispeed := s, c_ospeed := s\<rparr>)),
      lib_cfgetispeed = c_ispeed,
      lib_cfgetospeed = c_ospeed,
      lib_strtoul = strtoul_dec 0\<rparr>"

definition file_sys :: sys where
  "file_sys = tty_sys\<lparr>sys_tcgetattr := (\<lambda>fd. (- 1, ENOTTY, termios0))\<rparr>"

definition eio_sys :: sys where
  "eio_sys = tty_sys\<lparr>sys_tcgetattr := (\<lambda>fd. (- 1, 5, termios0))\<rparr>"

definition short_sys :: sys where
  "short_sys = tty_sys\<lparr>sys_write := (\<lambda>received data. (2, 0))\<rparr>"

subsection \<open>Properties of the table\<close>

lemma speed_rows_macros_distinct: "distinct (map fst speed_rows)"
  by (simp add: speed_rows_def)

lemma speed_rows_values_distinct: "distinct (map snd speed_rows)"
  by (simp add: speed_rows_def)

lemma build_speeds_mem:
  "e \<in> set (build_speeds P rows) \<longleftrightarrow> (\<exists>m. (m, val e) \<in> set rows \<and> P m = Some (sym e))"
  by (induction P rows rule: build_speeds.induct) (auto split: option.splits)

lemma build_speeds_val_distinct:
  "distinct (map snd rows) \<Longrightarrow> distinct (map val (build_speeds P rows))"
proof (induction P rows rule: build_speeds.induct)
  case (1 P)
  then show ?case by simp
next
  case (2 P m v rows)
  have "v \<notin> val ` set (build_speeds P rows)"
  proof
    assume "v \<in> val ` set (build_speeds P rows)"
    then obtain e where "e \<in> set (build_speeds P rows)" and "val e = v" by auto
    then have "v \<in> snd ` set rows" by (force simp: build_speeds_mem)
    with "2.prems" show False by simp
  qed
  with 2 show ?case by (simp split: option.splits)
qed

lemma build_speeds_sym_distinct:
  "distinct (map fst rows) \<Longrightarrow> inj_on P (dom P) \<Longrightarrow> distinct (map sym (build_speeds P rows))"
proof (induction P rows rule: build_speeds.induct)
  case (1 P)
  then show ?case by simp
next
  case (2 P m v rows)
  show ?case
  proof (cases "P m")
    case None
    with 2 show ?thesis by simp
  next
    case (Some s)
    have "s \<notin> sym ` set (build_speeds P rows)"
    proof
      assume "s \<in> sym ` set (build_speeds P rows)"
      then obtain e where "e \<in> set (build_speeds P rows)" and "sym e = s" by auto
      then obtain m' where m': "(m', val e) \<in> set rows" "P m' = Some s"
        by (auto simp: build_speeds_mem)
      with Some "2.prems"(2) have "m' = m" by (auto simp: inj_on_def dom_def)
      with m' "2.prems"(1) show False by force
    qed
    with 2 Some show ?thesis by simp
  qed
qed

lemma speeds_val_distinct: "distinct (map val (speeds P))"
  by (simp add: speeds_def build_speeds_val_distinct speed_rows_values_distinct)

lemma speeds_sym_distinct: "inj_on P (dom P) \<Longrightarrow> distinct (map sym (speeds P))"
  by (simp add: speeds_def build_speeds_sym_distinct speed_rows_macros_distinct)

lemma linux_termbits_inj: "inj_on linux_termbits (dom linux_termbits)"
proof (rule inj_onI)
  fix a b
  assume "linux_termbits a = linux_termbits b"
  then show "a = b" by (cases a; cases b; simp)
qed

lemma speed_rows_small: "\<forall>r \<in> set speed_rows. sint (snd r) = uint (snd r)"
  by (simp add: speed_rows_def)

lemma speeds_val_nonneg: "e \<in> set (speeds P) \<Longrightarrow> sint (val e) = uint (val e)"
  using speed_rows_small by (force simp: speeds_def build_speeds_mem)

lemma scan_val_present:
  "distinct (map sym es) \<Longrightarrow> e \<in> set es \<Longrightarrow> scan_val es (sym e) = sint (val e)"
  by (induction es) auto

lemma scan_sym_present:
  "distinct (map val es) \<Longrightarrow> e \<in> set es \<Longrightarrow> scan_sym es (val e) = sym e"
  by (induction es) auto

lemma scan_val_sentinel:
  "\<forall>e \<in> set es. sint (val e) \<noteq> - 1 \<Longrightarrow> scan_val es s = - 1 \<longleftrightarrow> s \<notin> sym ` set es"
  by (induction es) auto

lemma scan_sym_sentinel:
  "\<forall>e \<in> set es. sym e \<noteq> - 1 \<Longrightarrow> scan_sym es v = - 1 \<longleftrightarrow> v \<notin> val ` set es"
  by (induction es) auto

lemma speeds_sym_defined: "e \<in> set (speeds P) \<Longrightarrow> \<exists>m. P m = Some (sym e)"
  by (auto simp: speeds_def build_speeds_mem)

lemma speeds_zero_entry: "P B0 = Some s \<Longrightarrow> \<lparr>sym = s, val = 0\<rparr> \<in> set (speeds P)"
  by (simp add: speeds_def speed_rows_def)

lemma linux_termbits_no_allones: "linux_termbits m \<noteq> Some (- 1)"
  by (cases m) simp_all

text \<open>
  Claim C7. In the table as built, every bits-per-second value occurs once, every speed
  symbol occurs once provided that the platform gives distinct macros distinct codes,
  and the row of \<open>B0\<close> with value 0 is present.
\<close>

theorem speeds_invariant:
  "distinct (map val (speeds P)) \<and>
   (inj_on P (dom P) \<longrightarrow> distinct (map sym (speeds P))) \<and>
   (\<forall>s. P B0 = Some s \<longrightarrow> \<lparr>sym = s, val = 0\<rparr> \<in> set (speeds P))"
  by (simp add: speeds_val_distinct speeds_sym_distinct speeds_zero_entry)

text \<open>The table of the Linux macro values.\<close>

theorem speeds_invariant_witness:
  "inj_on linux_termbits (dom linux_termbits) \<and> linux_termbits B0 = Some 0 \<and>
   distinct (map val (speeds linux_termbits)) \<and> distinct (map sym (speeds linux_termbits)) \<and>
   \<lparr>sym = 0, val = 0\<rparr> \<in> set (speeds linux_termbits)"
  using speeds_invariant [of linux_termbits] linux_termbits_inj by simp

text \<open>
  Claim C2. For every entry of the table, looking the symbol up and translating the
  value back gives the symbol again (the \<open>int\<close> result is converted to the \<open>unsigned\<close>
  parameter), and looking the value up and translating the symbol back gives the value
  again. Distinct macros are assumed to have distinct codes.
\<close>

theorem lookup_roundtrip:
  assumes "inj_on P (dom P)" and "e \<in> set (speeds P)"
  shows "get_speed_sym P (word_of_int (get_speed_val P (sym e))) = sym e \<and>
         get_speed_val P (get_speed_sym P (val e)) = uint (val e)"
proof -
  have v: "get_speed_val P (sym e) = uint (val e)"
    using assms by (simp add: get_speed_val_def scan_val_present speeds_sym_distinct speeds_val_nonneg)
  have s: "get_speed_sym P (val e) = sym e"
    using assms(2) by (simp add: get_speed_sym_def scan_sym_present speeds_val_distinct)
  show ?thesis by (simp add: v s)
qed

text \<open>The row of 115200 bps in the Linux table.\<close>

theorem lookup_roundtrip_witness:
  "inj_on linux_termbits (dom linux_termbits) \<and>
   \<lparr>sym = 4098, val = 115200\<rparr> \<in> set (speeds linux_termbits) \<and>
   get_speed_val linux_termbits 4098 = 115200 \<and>
   get_speed_sym linux_termbits 115200 = 4098 \<and>
   get_speed_sym linux_termbits (word_of_int (get_speed_val linux_termbits 4098)) = 4098 \<and>
   get_speed_val linux_termbits (get_speed_sym linux_termbits 115200) = 115200"
proof -
  have m: "\<lparr>sym = 4098, val = 115200\<rparr> \<in> set (speeds linux_termbits)"
    by (simp add: speeds_def speed_rows_def)
  have v: "get_speed_val linux_termbits 4098 = 115200"
    by (simp add: get_speed_val_def speeds_def speed_rows_def)
  have s: "get_speed_sym linux_termbits 115200 = 4098"
    by (simp add: get_speed_sym_def speeds_def speed_rows_def)
  from lookup_roundtrip [OF linux_termbits_inj m] linux_termbits_inj m v s
  show ?thesis by simp
qed

text \<open>
  Claim C6. \<open>get_speed_val\<close> returns \<open>-1\<close> exactly for the symbols that are absent
  from the table, so no entry's value, the value 0 included, is returned as \<open>-1\<close>.
  \<open>get_speed_sym\<close> returns the all-ones word exactly for the values that are absent,
  on every platform where no speed macro is the all-ones word.
\<close>

theorem sentinel_distinguishable:
  "(get_speed_val P s = - 1 \<longleftrightarrow> s \<notin> sym ` set (speeds P)) \<and>
   ((\<forall>m. P m \<noteq> Some (- 1)) \<longrightarrow>
      (get_speed_sym P v = - 1 \<longleftrightarrow> v \<notin> val ` set (speeds P)))"
proof -
  have "sint (val e) \<noteq> - 1" if "e \<in> set (speeds P)" for e
    using speeds_val_nonneg [OF that] uint_ge_0 [of "val e"] by linarith
  then have "\<forall>e \<in> set (speeds P). sint (val e) \<noteq> - 1"
    by blast
  then have a: "get_speed_val P s = - 1 \<longleftrightarrow> s \<notin> sym ` set (speeds P)"
    unfolding get_speed_val_def by (rule scan_val_sentinel)
  have b: "get_speed_sym P v = - 1 \<longleftrightarrow> v \<notin> val ` set (speeds P)"
    if h: "\<forall>m. P m \<noteq> Some (- 1)"
  proof -
    have "\<forall>e \<in> set (speeds P). sym e \<noteq> - 1"
      using h speeds_sym_defined [of _ P] by metis
    then show ?thesis
      unfolding get_speed_sym_def by (rule scan_sym_sentinel)
  qed
  from a b show ?thesis by blast
qed

text \<open>
  In the Linux table: the absent symbol 16, the absent value 12345, and the row of 0 bps.
\<close>

theorem sentinel_distinguishable_witness:
  "(\<forall>m. linux_termbits m \<noteq> Some (- 1)) \<and>
   16 \<notin> sym ` set (speeds linux_termbits) \<and> get_speed_val linux_termbits 16 = - 1 \<and>
   12345 \<notin> val ` set (speeds linux_termbits) \<and> get_speed_sym linux_termbits 12345 = - 1 \<and>
   0 \<in> sym ` set (speeds linux_termbits) \<and> get_speed_val linux_termbits 0 \<noteq> - 1 \<and>
   0 \<in> val ` set (speeds linux_termbits) \<and> get_speed_sym linux_termbits 0 \<noteq> - 1"
proof -
  have h: "\<forall>m. linux_termbits m \<noteq> Some (- 1)"
    by (simp add: linux_termbits_no_allones)
  have s: "16 \<notin> sym ` set (speeds linux_termbits)" "0 \<in> sym ` set (speeds linux_termbits)"
    by (simp_all add: speeds_def speed_rows_def)
  have v: "12345 \<notin> val ` set (speeds linux_termbits)" "0 \<in> val ` set (speeds linux_termbits)"
    by (simp_all add: speeds_def speed_rows_def)
  from h s v sentinel_distinguishable [of linux_termbits 16 12345]
    sentinel_distinguishable [of linux_termbits 0 0]
  show ?thesis by simp
qed

subsection \<open>Properties of device_open\<close>

lemma seq_Exit: "seq (t, Exit c) f = (t, Exit c)"
  by (simp add: seq_def)

lemma seq_Ret: "seq (t, Ret v) f = (t @ fst (f v), snd (f v))"
  by (simp add: seq_def split: prod.splits)

lemma seq_cases:
  "seq m f = (if \<exists>c. snd m = Exit c then m
              else (fst m @ fst (f (case snd m of Ret v \<Rightarrow> v)), snd (f (case snd m of Ret v \<Rightarrow> v))))"
  by (cases m; cases "snd m") (auto simp: seq_def split: prod.splits)

lemma fst_seq: "\<exists>t'. fst (seq m f) = fst m @ t'"
  by (cases m; cases "snd m") (auto simp: seq_def split: prod.splits)

lemma no_config_pr_debug: "\<not> list_ex is_config (pr_debug opt fmt args)"
  by (simp add: pr_debug_def)

lemma no_config_pr_error: "\<not> list_ex is_config (pr_error fmt args)"
  by (simp add: pr_error_def)

lemma no_config_pr_info: "\<not> list_ex is_config (pr_info fmt args)"
  by (simp add: pr_info_def)

lemma raw_mode_config: "list_ex is_config (fst (raw_mode E opt fd t))"
  by (simp add: raw_mode_def Let_def split: prod.splits)

lemma open_path_ok:
  "sys_open E pathname flags = (fd, e0) \<Longrightarrow> 0 \<le> fd \<Longrightarrow>
   open_path E opt pathname flags =
     (pr_debug opt ''Opening %s...\<newline>'' [ArgStr pathname] @ [SysOpen pathname flags], Ret fd)"
  by (simp add: open_path_def)

lemma device_open_not_tty:
  assumes "sys_open E pathname flags = (fd, e0)" and "0 \<le> fd"
    and "sys_tcgetattr E fd = (r, e, t)" and "r \<noteq> 0" and "e = ENOTTY"
  shows "device_open P E opt pathname flags =
           (pr_debug opt ''Opening %s...\<newline>'' [ArgStr pathname] @
            [SysOpen pathname flags, SysTcgetattr fd] @
            pr_info ''%s is not a tty, skipping tty config\<newline>'' [ArgStr pathname],
            Ret fd)"
  using assms by (simp add: device_open_def open_path_ok get_attrs_def seq_Ret)

lemma device_open_attr_failure:
  assumes "sys_open E pathname flags = (fd, e0)" and "0 \<le> fd"
    and "sys_tcgetattr E fd = (r, e, t)" and "r \<noteq> 0" and "e \<noteq> ENOTTY"
  shows "device_open P E opt pathname flags =
           (pr_debug opt ''Opening %s...\<newline>'' [ArgStr pathname] @
            [SysOpen pathname flags, SysTcgetattr fd] @
            pr_error ''Failed to get terminal attributes: %s\<newline>'' [ArgStrerror e],
            Exit (- 1))"
  using assms by (simp add: device_open_def open_path_ok get_attrs_def seq_Ret seq_Exit)

lemma device_open_tty_config:
  assumes "sys_open E pathname flags = (fd, e0)" and "0 \<le> fd"
    and "sys_tcgetattr E fd = (r, e, t)" and "r = 0"
  shows "list_ex is_config (fst (device_open P E opt pathname flags))"
proof -
  obtain t' where "fst (seq (raw_mode E opt fd t) (\<lambda>termios1.
           seq (flow_control E opt fd termios1) (\<lambda>termios2.
           seq (set_speed P E opt fd termios2) (\<lambda>termios3.
           seq (flush E opt fd) (\<lambda>_. ([], Ret fd)))))) = fst (raw_mode E opt fd t) @ t'"
    using fst_seq by blast
  with assms raw_mode_config [of E opt fd t] show ?thesis
    by (simp add: device_open_def open_path_ok get_attrs_def seq_Ret)
qed

text \<open>
  Claim C4. Once the path is open, \<open>device_open\<close> returns the descriptor without any
  configuration call (raw mode, \<open>tcsetattr\<close>, speed, flush) if and only if
  \<open>tcgetattr\<close> fails with \<open>ENOTTY\<close>; in that case its only effects are the open, the
  query and the message. If \<open>tcgetattr\<close> fails with any other error, the process ends
  with \<open>exit(-1)\<close> after the error message.
\<close>

theorem not_a_tty_skips_config:
  assumes "sys_open E pathname flags = (fd, e0)" and "0 \<le> fd"
    and "sys_tcgetattr E fd = (r, e, t)"
  shows "((r \<noteq> 0 \<and> e = ENOTTY) \<longleftrightarrow>
            (snd (device_open P E opt pathname flags) = Ret fd \<and>
             \<not> list_ex is_config (fst (device_open P E opt pathname flags)))) \<and>
         (r \<noteq> 0 \<and> e = ENOTTY \<longrightarrow>
            fst (device_open P E opt pathname flags) =
              pr_debug opt ''Opening %s...\<newline>'' [ArgStr pathname] @
              [SysOpen pathname flags, SysTcgetattr fd] @
              pr_info ''%s is not a tty, skipping tty config\<newline>'' [ArgStr pathname]) \<and>
         (r \<noteq> 0 \<and> e \<noteq> ENOTTY \<longrightarrow>
            device_open P E opt pathname flags =
              (pr_debug opt ''Opening %s...\<newline>'' [ArgStr pathname] @
               [SysOpen pathname flags, SysTcgetattr fd] @
               pr_error ''Failed to get terminal attributes: %s\<newline>'' [ArgStrerror e],
               Exit (- 1)))"
    (is "?A \<and> ?B \<and> ?C")
proof -
  have a: "snd (device_open P E opt pathname flags) = Ret fd \<and>
           \<not> list_ex is_config (fst (device_open P E opt pathname flags))"
    if "r \<noteq> 0" "e = ENOTTY"
    using device_open_not_tty [OF assms that, of P opt]
    by (simp add: pr_debug_def pr_info_def)
  have b: "r \<noteq> 0 \<and> e = ENOTTY"
    if h: "snd (device_open P E opt pathname flags) = Ret fd \<and>
           \<not> list_ex is_config (fst (device_open P E opt pathname flags))"
  proof (cases "r = 0")
    case True
    with device_open_tty_config [OF assms True, of P opt] h show ?thesis by simp
  next
    case False
    show ?thesis
    proof (cases "e = ENOTTY")
      case True
      with False show ?thesis by simp
    next
      case ne: False
      from device_open_attr_failure [OF assms False ne, of P opt] h show ?thesis by simp
    qed
  qed
  have A: ?A using a b by blast
  have B: ?B using device_open_not_tty [OF assms, of P opt] by simp
  have C: ?C using device_open_attr_failure [OF assms, of P opt] by simp
  from A B C show ?thesis by (intro conjI)
qed

text \<open>
  A regular file (\<open>file_sys\<close>), and a device whose attribute query fails with error 5
  (\<open>eio_sys\<close>).
\<close>

theorem not_a_tty_skips_config_witness:
  "sys_open file_sys ''/tmp/f'' O_RDONLY = (3, 0) \<and> (0 :: int) \<le> 3 \<and>
   sys_tcgetattr file_sys 3 = (- 1, ENOTTY, termios0) \<and>
   device_open linux_termbits file_sys opts0 ''/tmp/f'' O_RDONLY =
     ([SysOpen ''/tmp/f'' O_RDONLY, SysTcgetattr 3,
       Stdout ''%s is not a tty, skipping tty config\<newline>'' [ArgStr ''/tmp/f'']],
      Ret 3) \<and>
   sys_tcgetattr eio_sys 3 = (- 1, 5, termios0) \<and>
   snd (device_open linux_termbits eio_sys opts0 ''/tmp/f'' O_RDONLY) = Exit (- 1)"
proof -
  have o: "sys_open file_sys ''/tmp/f'' O_RDONLY = (3, 0)"
    by (simp add: file_sys_def tty_sys_def)
  have n: "(0 :: int) \<le> 3" by simp
  have g: "sys_tcgetattr file_sys 3 = (- 1, ENOTTY, termios0)"
    by (simp add: file_sys_def tty_sys_def)
  have o': "sys_open eio_sys ''/tmp/f'' O_RDONLY = (3, 0)"
    by (simp add: eio_sys_def tty_sys_def)
  have g': "sys_tcgetattr eio_sys 3 = (- 1, 5, termios0)"
    by (simp add: eio_sys_def tty_sys_def)
  have ne: "(5 :: int) \<noteq> ENOTTY" by (simp add: ENOTTY_def)
  have v: "\<not> opt_verbose opts0" by (simp add: opts0_def)
  from not_a_tty_skips_config [OF o n g, of linux_termbits opts0]
  have 1: "device_open linux_termbits file_sys opts0 ''/tmp/f'' O_RDONLY =
     ([SysOpen ''/tmp/f'' O_RDONLY, SysTcgetattr 3,
       Stdout ''%s is not a tty, skipping tty config\<newline>'' [ArgStr ''/tmp/f'']],
      Ret 3)"
    using v by (simp add: pr_debug_def pr_info_def prod_eq_iff)
  from not_a_tty_skips_config [OF o' n g', of linux_termbits opts0] ne
  have 2: "snd (device_open linux_termbits eio_sys opts0 ''/tmp/f'' O_RDONLY) = Exit (- 1)"
    by simp
  from o n g g' 1 2 show ?thesis by (intro conjI)
qed

lemma seq_event:
  "ev \<in> set (fst (seq m f)) \<Longrightarrow>
   ev \<in> set (fst m) \<or> (\<exists>v. snd m = Ret v \<and> ev \<in> set (fst (f v)))"
  by (cases m; cases "snd m") (auto simp: seq_def split: prod.splits)

lemma device_open_event:
  assumes "ev \<in> set (fst (device_open P E opt pathname flags))"
  shows "ev \<in> set (fst (open_path E opt pathname flags)) \<or>
         (\<exists>fd. ev \<in> set (fst (get_attrs E opt pathname fd))) \<or>
         (\<exists>fd t. ev \<in> set (fst (raw_mode E opt fd t))) \<or>
         (\<exists>fd t. ev \<in> set (fst (flow_control E opt fd t))) \<or>
         (\<exists>fd t. ev \<in> set (fst (set_speed P E opt fd t))) \<or>
         (\<exists>fd. ev \<in> set (fst (flush E opt fd)))"
proof -
  from assms consider
      (a) "ev \<in> set (fst (open_path E opt pathname flags))"
    | (b) fd where "ev \<in> set (fst (seq (get_attrs E opt pathname fd) (\<lambda>attrs.
             case attrs of
               None \<Rightarrow> ([], Ret fd)
             | Some termios \<Rightarrow>
                 seq (raw_mode E opt fd termios) (\<lambda>termios1.
                 seq (flow_control E opt fd termios1) (\<lambda>termios2.
                 seq (set_speed P E opt fd termios2) (\<lambda>termios3.
                 seq (flush E opt fd) (\<lambda>_. ([], Ret fd))))))))"
    unfolding device_open_def by (blast dest: seq_event)
  then show ?thesis
  proof cases
    case a
    then show ?thesis by blast
  next
    case b
    from seq_event [OF b] show ?thesis
    proof (elim disjE exE conjE)
      assume "ev \<in> set (fst (get_attrs E opt pathname fd))"
      then show ?thesis by blast
    next
      fix attrs
      assume h: "ev \<in> set (fst (case attrs of
               None \<Rightarrow> ([], Ret fd)
             | Some termios \<Rightarrow>
                 seq (raw_mode E opt fd termios) (\<lambda>termios1.
                 seq (flow_control E opt fd termios1) (\<lambda>termios2.
                 seq (set_speed P E opt fd termios2) (\<lambda>termios3.
                 seq (flush E opt fd) (\<lambda>_. ([], Ret fd)))))))"
      show ?thesis
      proof (cases attrs)
        case None
        with h show ?thesis by simp
      next
        case (Some t)
        with h have "ev \<in> set (fst (seq (raw_mode E opt fd t) (\<lambda>termios1.
                 seq (flow_control E opt fd termios1) (\<lambda>termios2.
                 seq (set_speed P E opt fd termios2) (\<lambda>termios3.
                 seq (flush E opt fd) (\<lambda>_. ([], Ret fd)))))))"
          by simp
        then show ?thesis
          by (fastforce dest!: seq_event)
      qed
    qed
  qed
qed

lemma scan_sym_absent: "v \<notin> val ` set es \<Longrightarrow> scan_sym es v = - 1"
  by (induction es) auto

lemma scan_sym_found: "scan_sym es v \<noteq> - 1 \<Longrightarrow> \<exists>e \<in> set es. val e = v \<and> sym e = scan_sym es v"
  by (induction es) auto

lemma sint_allones: "sint (w :: 32 word) = - 1 \<longleftrightarrow> w = - 1"
proof
  assume "sint w = - 1"
  then have "sint w = sint (- 1 :: 32 word)" by simp
  then show "w = - 1" by (rule signed_word_eqI)
qed simp

lemma set_speed_zero:
  "opt_speed opt = 0 \<Longrightarrow>
   set_speed P E opt fd t =
     (pr_debug opt ''Serial speed is %u/%u\<newline>''
        [ArgNum (get_speed_val P (lib_cfgetispeed E t)),
         ArgNum (get_speed_val P (lib_cfgetospeed E t))],
      Ret t)"
  by (simp add: set_speed_def)

lemma set_speed_unknown:
  "opt_speed opt \<noteq> 0 \<Longrightarrow> opt_speed opt \<notin> val ` set (speeds P) \<Longrightarrow>
   set_speed P E opt fd t =
     (pr_error ''Unknown serial speed %u\<newline>'' [ArgNum (uint (opt_speed opt))], Exit (- 1))"
  by (simp add: set_speed_def get_speed_sym_def scan_sym_absent)

lemma set_speed_cfsetspeed:
  "LibCfsetspeed x \<in> set (fst (set_speed P E opt fd t)) \<Longrightarrow>
   opt_speed opt \<noteq> 0 \<and> x = get_speed_sym P (opt_speed opt) \<and> x \<noteq> - 1"
  by (auto simp: set_speed_def Let_def pr_debug_def pr_error_def sint_allones
      split: if_splits prod.splits)

lemma other_steps_no_cfsetspeed:
  "LibCfsetspeed x \<notin> set (fst (open_path E opt pathname flags))"
  "LibCfsetspeed x \<notin> set (fst (get_attrs E opt pathname fd))"
  "LibCfsetspeed x \<notin> set (fst (raw_mode E opt fd t))"
  "LibCfsetspeed x \<notin> set (fst (flow_control E opt fd t))"
  "LibCfsetspeed x \<notin> set (fst (flush E opt fd))"
  by (auto simp: open_path_def get_attrs_def raw_mode_def flow_control_def flush_def Let_def
      pr_debug_def pr_error_def pr_info_def split: if_splits prod.splits)

lemma device_open_cfsetspeed:
  assumes "LibCfsetspeed x \<in> set (fst (device_open P E opt pathname flags))"
  shows "opt_speed opt \<noteq> 0 \<and> x = get_speed_sym P (opt_speed opt) \<and> x \<noteq> - 1"
proof -
  from device_open_event [OF assms]
  obtain fd t where "LibCfsetspeed x \<in> set (fst (set_speed P E opt fd t))"
    by (auto simp: other_steps_no_cfsetspeed)
  then show ?thesis by (rule set_speed_cfsetspeed)
qed

lemma get_attrs_ok:
  "sys_tcgetattr E fd = (0, e, t) \<Longrightarrow> snd (get_attrs E opt pathname fd) = Ret (Some t)"
  by (simp add: get_attrs_def)

lemma seq_Ret_snd: "snd m = Ret v \<Longrightarrow> seq m f = (fst m @ fst (f v), snd (f v))"
  by (cases m) (simp add: seq_Ret)

lemma raw_mode_exit: "raw_mode E opt fd t = (tr, Exit c) \<Longrightarrow> c = - 1"
  by (auto simp: raw_mode_def Let_def split: prod.splits if_splits)

lemma flow_control_exit: "flow_control E opt fd t = (tr, Exit c) \<Longrightarrow> c = - 1"
  by (auto simp: flow_control_def Let_def split: prod.splits if_splits)

lemma raw_mode_ok:
  "fst (sys_tcsetattr E SetRaw fd (lib_cfmakeraw E t)) = 0 \<Longrightarrow>
   snd (raw_mode E opt fd t) = Ret (lib_cfmakeraw E t)"
  by (auto simp: raw_mode_def Let_def split: prod.splits)

lemma flow_control_ok:
  "\<forall>t'. fst (sys_tcsetattr E SetFlow fd t') = 0 \<Longrightarrow> \<exists>t2. snd (flow_control E opt fd t) = Ret t2"
  by (auto simp: flow_control_def Let_def split: prod.splits) (metis fst_conv)+

lemma early_steps_no_flush:
  "SysTcflush x \<notin> set (fst (open_path E opt pathname flags))"
  "SysTcflush x \<notin> set (fst (get_attrs E opt pathname fd))"
  "SysTcflush x \<notin> set (fst (raw_mode E opt fd t))"
  "SysTcflush x \<notin> set (fst (flow_control E opt fd t))"
  "SysTcflush x \<notin> set (pr_error fmt args)"
  by (auto simp: open_path_def get_attrs_def raw_mode_def flow_control_def Let_def
      pr_debug_def pr_error_def pr_info_def split: if_splits prod.splits)

lemma raw_mode_no_flush: "raw_mode E opt fd t = (tr, r) \<Longrightarrow> SysTcflush x \<in> set tr \<Longrightarrow> False"
  using early_steps_no_flush(3) [of x E opt fd t] by simp

lemma flow_control_no_flush:
  "flow_control E opt fd t = (tr, r) \<Longrightarrow> SysTcflush x \<in> set tr \<Longrightarrow> False"
  using early_steps_no_flush(4) [of x E opt fd t] by simp

lemma device_open_tty:
  assumes "sys_open E pathname flags = (fd, e0)" and "0 \<le> fd"
    and "sys_tcgetattr E fd = (0, e, t)"
  shows "device_open P E opt pathname flags =
           seq (fst (open_path E opt pathname flags) @ fst (get_attrs E opt pathname fd), Ret t)
             (\<lambda>termios.
               seq (raw_mode E opt fd termios) (\<lambda>termios1.
               seq (flow_control E opt fd termios1) (\<lambda>termios2.
               seq (set_speed P E opt fd termios2) (\<lambda>termios3.
               seq (flush E opt fd) (\<lambda>_. ([], Ret fd))))))"
proof -
  have o: "snd (open_path E opt pathname flags) = Ret fd"
    using assms(1,2) by (simp add: open_path_ok)
  have g: "snd (get_attrs E opt pathname fd) = Ret (Some t)"
    using assms(3) by (rule get_attrs_ok)
  show ?thesis
    by (simp add: device_open_def seq_Ret_snd [OF o] seq_Ret_snd [OF g] seq_Ret)
qed

lemma device_open_unknown_speed:
  assumes "opt_speed opt \<noteq> 0" and "opt_speed opt \<notin> val ` set (speeds P)"
    and "sys_open E pathname flags = (fd, e0)" and "0 \<le> fd"
    and "sys_tcgetattr E fd = (0, e, t)"
  shows "device_open P E opt pathname flags =
           (case raw_mode E opt fd t of
              (tr, Exit c) \<Rightarrow>
                (fst (open_path E opt pathname flags) @ fst (get_attrs E opt pathname fd) @ tr,
                 Exit c)
            | (tr, Ret t1) \<Rightarrow>
                (case flow_control E opt fd t1 of
                   (tf, Exit c) \<Rightarrow>
                     (fst (open_path E opt pathname flags) @
                      fst (get_attrs E opt pathname fd) @ tr @ tf, Exit c)
                 | (tf, Ret t2) \<Rightarrow>
                     (fst (open_path E opt pathname flags) @
                      fst (get_attrs E opt pathname fd) @ tr @ tf @
                      pr_error ''Unknown serial speed %u\<newline>''
                        [ArgNum (uint (opt_speed opt))],
                      Exit (- 1))))"
  unfolding device_open_tty [OF assms(3-5)]
  by (simp add: seq_def set_speed_unknown [OF assms(1,2)] split: prod.splits outcome.splits)

text \<open>
  Claim C5. On a terminal (the path opens and \<open>tcgetattr\<close> succeeds), a requested
  speed that is not zero and not a value of the table ends the process with
  \<open>exit(-1)\<close>; \<open>cfsetspeed\<close> is never called and the flush is never reached. When the
  \<open>tcsetattr\<close> calls of the earlier steps succeed, the last effect is the message
  \<open>Unknown serial speed\<close> with the requested value.
\<close>

theorem unsupported_speed_fatal:
  assumes "opt_speed opt \<noteq> 0" and "opt_speed opt \<notin> val ` set (speeds P)"
    and "sys_open E pathname flags = (fd, e0)" and "0 \<le> fd"
    and "sys_tcgetattr E fd = (0, e, t)"
  shows "snd (device_open P E opt pathname flags) = Exit (- 1) \<and>
         (\<forall>x. LibCfsetspeed x \<notin> set (fst (device_open P E opt pathname flags))) \<and>
         (\<forall>x. SysTcflush x \<notin> set (fst (device_open P E opt pathname flags))) \<and>
         ((\<forall>site t'. fst (sys_tcsetattr E site fd t') = 0) \<longrightarrow>
            fst (device_open P E opt pathname flags) =
              fst (open_path E opt pathname flags) @
              fst (get_attrs E opt pathname fd) @
              fst (raw_mode E opt fd t) @
              fst (flow_control E opt fd (lib_cfmakeraw E t)) @
              pr_error ''Unknown serial speed %u\<newline>'' [ArgNum (uint (opt_speed opt))])"
    (is "?A \<and> ?B \<and> ?C \<and> ?D")
proof -
  note f = device_open_unknown_speed [OF assms]
  have A: ?A
    unfolding f
    by (auto split: prod.splits outcome.splits dest: raw_mode_exit flow_control_exit
        simp: snd_def)
  have B: ?B
  proof (intro allI notI)
    fix x
    assume "LibCfsetspeed x \<in> set (fst (device_open P E opt pathname flags))"
    from device_open_cfsetspeed [OF this] assms(2) show False
      by (simp add: get_speed_sym_def scan_sym_absent)
  qed
  have C: ?C
    unfolding f
    by (auto split: prod.splits outcome.splits simp: early_steps_no_flush
        dest: raw_mode_no_flush flow_control_no_flush)
  have D: ?D
  proof
    assume ok: "\<forall>site t'. fst (sys_tcsetattr E site fd t') = 0"
    then have r: "snd (raw_mode E opt fd t) = Ret (lib_cfmakeraw E t)"
      by (simp add: raw_mode_ok)
    from ok obtain t2 where fl: "snd (flow_control E opt fd (lib_cfmakeraw E t)) = Ret t2"
      using flow_control_ok [of E fd opt "lib_cfmakeraw E t"] by blast
    from r fl show "fst (device_open P E opt pathname flags) =
               fst (open_path E opt pathname flags) @
               fst (get_attrs E opt pathname fd) @
               fst (raw_mode E opt fd t) @
               fst (flow_control E opt fd (lib_cfmakeraw E t)) @
               pr_error ''Unknown serial speed %u\<newline>'' [ArgNum (uint (opt_speed opt))]"
      unfolding f by (auto split: prod.splits outcome.splits)
  qed
  from A B C D show ?thesis by (intro conjI)
qed

text \<open>The speed 12345 on the terminal of \<open>tty_sys\<close>, with the Linux table.\<close>

theorem unsupported_speed_fatal_witness:
  "opt_speed (opts0\<lparr>opt_speed := 12345\<rparr>) \<noteq> 0 \<and>
   opt_speed (opts0\<lparr>opt_speed := 12345\<rparr>) \<notin> val ` set (speeds linux_termbits) \<and>
   sys_open tty_sys ''/dev/ttyS0'' O_RDONLY = (3, 0) \<and> (0 :: int) \<le> 3 \<and>
   sys_tcgetattr tty_sys 3 = (0, 0, termios0) \<and>
   (\<forall>site t'. fst (sys_tcsetattr tty_sys site 3 t') = 0) \<and>
   device_open linux_termbits tty_sys (opts0\<lparr>opt_speed := 12345\<rparr>) ''/dev/ttyS0'' O_RDONLY =
     ([SysOpen ''/dev/ttyS0'' O_RDONLY, SysTcgetattr 3, LibCfmakeraw, SysTcsetattr 3 termios0,
       Stderr (ESC_RED @ ''Unknown serial speed %u\<newline>'' @ ESC_RM) [ArgNum 12345]],
      Exit (- 1))"
proof -
  have s: "opt_speed (opts0\<lparr>opt_speed := 12345\<rparr>) \<noteq> 0" by simp
  have a: "opt_speed (opts0\<lparr>opt_speed := 12345\<rparr>) \<notin> val ` set (speeds linux_termbits)"
    by (simp add: speeds_def speed_rows_def)
  have o: "sys_open tty_sys ''/dev/ttyS0'' O_RDONLY = (3, 0)"
    by (simp add: tty_sys_def)
  have n: "(0 :: int) \<le> 3" by simp
  have g: "sys_tcgetattr tty_sys 3 = (0, 0, termios0)"
    by (simp add: tty_sys_def)
  have k: "\<forall>site t'. fst (sys_tcsetattr tty_sys site 3 t') = 0"
    by (simp add: tty_sys_def)
  have st: "fst (open_path tty_sys (opts0\<lparr>opt_speed := 12345\<rparr>) ''/dev/ttyS0'' O_RDONLY) =
              [SysOpen ''/dev/ttyS0'' O_RDONLY]"
    "fst (get_attrs tty_sys (opts0\<lparr>opt_speed := 12345\<rparr>) ''/dev/ttyS0'' 3) = [SysTcgetattr 3]"
    "fst (raw_mode tty_sys (opts0\<lparr>opt_speed := 12345\<rparr>) 3 termios0) =
       [LibCfmakeraw, SysTcsetattr 3 termios0]"
    "fst (flow_control tty_sys (opts0\<lparr>opt_speed := 12345\<rparr>) 3 (lib_cfmakeraw tty_sys termios0)) = []"
    by (simp_all add: open_path_def get_attrs_def raw_mode_def flow_control_def pr_debug_def
        tty_sys_def opts0_def)
  note t = unsupported_speed_fatal [OF s a o n g]
  from t have x: "snd (device_open linux_termbits tty_sys (opts0\<lparr>opt_speed := 12345\<rparr>)
      ''/dev/ttyS0'' O_RDONLY) = Exit (- 1)"
    by (rule conjunct1)
  from t k have "fst (device_open linux_termbits tty_sys (opts0\<lparr>opt_speed := 12345\<rparr>)
      ''/dev/ttyS0'' O_RDONLY) =
        fst (open_path tty_sys (opts0\<lparr>opt_speed := 12345\<rparr>) ''/dev/ttyS0'' O_RDONLY) @
        fst (get_attrs tty_sys (opts0\<lparr>opt_speed := 12345\<rparr>) ''/dev/ttyS0'' 3) @
        fst (raw_mode tty_sys (opts0\<lparr>opt_speed := 12345\<rparr>) 3 termios0) @
        fst (flow_control tty_sys (opts0\<lparr>opt_speed := 12345\<rparr>) 3
              (lib_cfmakeraw tty_sys termios0)) @
        pr_error ''Unknown serial speed %u\<newline>''
          [ArgNum (uint (opt_speed (opts0\<lparr>opt_speed := 12345\<rparr>)))]"
    by (elim conjE impE) assumption+
  then have y: "fst (device_open linux_termbits tty_sys (opts0\<lparr>opt_speed := 12345\<rparr>)
      ''/dev/ttyS0'' O_RDONLY) =
      [SysOpen ''/dev/ttyS0'' O_RDONLY, SysTcgetattr 3, LibCfmakeraw, SysTcsetattr 3 termios0,
       Stderr (ESC_RED @ ''Unknown serial speed %u\<newline>'' @ ESC_RM) [ArgNum 12345]]"
    by (simp add: st pr_error_def)
  from x y have "device_open linux_termbits tty_sys (opts0\<lparr>opt_speed := 12345\<rparr>)
      ''/dev/ttyS0'' O_RDONLY =
     ([SysOpen ''/dev/ttyS0'' O_RDONLY, SysTcgetattr 3, LibCfmakeraw, SysTcsetattr 3 termios0,
       Stderr (ESC_RED @ ''Unknown serial speed %u\<newline>'' @ ESC_RM) [ArgNum 12345]],
      Exit (- 1))"
    by (simp add: prod_eq_iff)
  with s a o n g k show ?thesis by (intro conjI)
qed

subsection \<open>Properties of the relay loop\<close>

lemma do_read_nonneg:
  assumes "0 \<le> rd_ret (do_read E src c)"
  shows "length (rd_data (do_read E src c)) = nat (rd_ret (do_read E src c))"
    and "rd_data (do_read E src c) @ rd_rest (do_read E src c) = src"
    and "nat (rd_ret (do_read E src c)) \<le> c"
  using assms by (auto simp: do_read_def Let_def split: prod.splits if_splits)

lemma do_write_nonneg:
  assumes "0 \<le> wr_ret (do_write E snk d)"
  shows "wr_snk (do_write E snk d) = snk @ take (nat (wr_ret (do_write E snk d))) d"
    and "wr_ret (do_write E snk d) \<le> int (length d)"
  using assms by (auto simp: do_write_def Let_def split: prod.splits if_splits)

lemma do_write_neg:
  "wr_ret (do_write E snk d) < 0 \<Longrightarrow> wr_snk (do_write E snk d) = snk"
  by (auto simp: do_write_def Let_def split: prod.splits if_splits)

lemma relay_rest_shorter:
  "0 < rd_ret (do_read E src c) \<Longrightarrow> length (rd_rest (do_read E src c)) < length src"
  by (auto simp: do_read_def Let_def split: prod.splits if_splits)

lemma relay_unfold:
  assumes r: "do_read E src BUF_SIZE = r" and w: "do_write E snk (rd_data r) = w"
  shows "relay E rx_fd tx_fd buf src snk =
     (if rd_ret r = 0 then
        \<lparr>r_events = [SysRead rx_fd BUF_SIZE (rd_ret r)], r_exit = None,
         r_src = rd_rest r, r_snk = snk\<rparr>
      else if rd_ret r < 0 then
        \<lparr>r_events = [SysRead rx_fd BUF_SIZE (rd_ret r)] @
                    pr_error ''Read error: %s\<newline>'' [ArgStrerror (rd_errno r)],
         r_exit = Some (- 1), r_src = rd_rest r, r_snk = snk\<rparr>
      else if wr_ret w < 0 then
        \<lparr>r_events = [SysRead rx_fd BUF_SIZE (rd_ret r), SysWrite tx_fd (rd_data r) (wr_ret w)] @
                    pr_error ''Write error: %s\<newline>'' [ArgStrerror (wr_errno w)],
         r_exit = Some (- 1), r_src = rd_rest r, r_snk = wr_snk w\<rparr>
      else if wr_ret w < rd_ret r then
        \<lparr>r_events = [SysRead rx_fd BUF_SIZE (rd_ret r), SysWrite tx_fd (rd_data r) (wr_ret w)] @
                    pr_error ''Short write %zd < %zu\<newline>''
                      [ArgNum (wr_ret w), ArgNum (rd_ret r)],
         r_exit = Some (- 1), r_src = rd_rest r, r_snk = wr_snk w\<rparr>
      else
        (relay E rx_fd tx_fd (rd_data r @ drop (nat (rd_ret r)) buf) (rd_rest r) (wr_snk w))
        \<lparr>r_events :=
           [SysRead rx_fd BUF_SIZE (rd_ret r), SysWrite tx_fd (rd_data r) (wr_ret w)] @
           r_events (relay E rx_fd tx_fd (rd_data r @ drop (nat (rd_ret r)) buf)
                       (rd_rest r) (wr_snk w))\<rparr>)"
proof (cases "rd_ret r < 0")
  case True
  then show ?thesis
    by (subst relay.simps) (simp add: r Let_def)
next
  case False
  then have "length (rd_data r) = nat (rd_ret r)"
    using do_read_nonneg(1) [of E src BUF_SIZE] r by simp
  then have tk: "take (nat (rd_ret r)) (rd_data r @ drop (nat (rd_ret r)) buf) = rd_data r"
    by simp
  show ?thesis
    by (subst relay.simps) (simp add: r w Let_def tk del: take_append)
qed

lemma writes_of_append: "writes_of (xs @ ys) = writes_of xs @ writes_of ys"
  by (induction xs rule: writes_of.induct) auto

lemma reads_of_append: "reads_of (xs @ ys) = reads_of xs + reads_of ys"
  by (induction xs rule: reads_of.induct) auto

lemma pr_error_no_io:
  "writes_of (pr_error fmt args) = []" "reads_of (pr_error fmt args) = 0"
  "SysWrite fd d out \<notin> set (pr_error fmt args)"
  by (simp_all add: pr_error_def)

lemma length_concat_bound:
  "\<forall>x \<in> set xs. length x \<le> b \<Longrightarrow> length (concat xs) \<le> b * length xs"
  by (induction xs) auto

lemma relay_short_write_event:
  assumes "SysWrite fd d out \<in> set (r_events (relay E rx_fd tx_fd buf src snk))"
    and "0 \<le> out" and "out < int (length d)"
  shows "r_exit (relay E rx_fd tx_fd buf src snk) = Some (- 1) \<and>
         (\<exists>pre. r_events (relay E rx_fd tx_fd buf src snk) =
            pre @ [SysWrite fd d out] @
            pr_error ''Short write %zd < %zu\<newline>'' [ArgNum out, ArgNum (int (length d))])"
  using assms
proof (induction "length src" arbitrary: buf src snk rule: less_induct)
  case less
  define r where "r = do_read E src BUF_SIZE"
  define w where "w = do_write E snk (rd_data r)"
  note u = relay_unfold [OF r_def [symmetric] w_def [symmetric], of rx_fd tx_fd buf]
  consider (eof) "rd_ret r = 0" | (rerr) "rd_ret r < 0"
    | (werr) "0 < rd_ret r" "wr_ret w < 0"
    | (short) "0 < rd_ret r" "0 \<le> wr_ret w" "wr_ret w < rd_ret r"
    | (cont) "0 < rd_ret r" "rd_ret r \<le> wr_ret w"
    by linarith
  then show ?case
  proof cases
    case eof
    with less.prems(1) show ?thesis by (simp add: u)
  next
    case rerr
    with less.prems(1) show ?thesis by (simp add: u pr_error_def)
  next
    case werr
    with less.prems(1,2) show ?thesis by (auto simp: u pr_error_def)
  next
    case short
    then have len: "int (length (rd_data r)) = rd_ret r"
      using do_read_nonneg(1) [of E src BUF_SIZE] by (simp add: r_def)
    from short less.prems(1) have "fd = tx_fd \<and> d = rd_data r \<and> out = wr_ret w"
      by (auto simp: u pr_error_def)
    with short len show ?thesis by (simp add: u)
  next
    case cont
    then have len: "int (length (rd_data r)) = rd_ret r"
      using do_read_nonneg(1) [of E src BUF_SIZE] by (simp add: r_def)
    let ?res = "relay E rx_fd tx_fd (rd_data r @ drop (nat (rd_ret r)) buf) (rd_rest r) (wr_snk w)"
    from cont have e: "relay E rx_fd tx_fd buf src snk =
        ?res\<lparr>r_events := [SysRead rx_fd BUF_SIZE (rd_ret r), SysWrite tx_fd (rd_data r) (wr_ret w)] @
                            r_events ?res\<rparr>"
      by (simp add: u)
    from less.prems(1) have "SysWrite fd d out = SysWrite tx_fd (rd_data r) (wr_ret w) \<or>
        SysWrite fd d out \<in> set (r_events ?res)"
      by (simp add: e)
    with cont len less.prems(3) have m: "SysWrite fd d out \<in> set (r_events ?res)"
      by auto
    from cont have "length (rd_rest r) < length src"
      unfolding r_def by (intro relay_rest_shorter)
    from less.hyps [OF this m less.prems(2,3)] show ?thesis
      by (auto simp: e)
  qed
qed

lemma do_read_good:
  assumes "\<forall>p n. 0 \<le> fst (sys_read E p n) \<and> (p \<noteq> [] \<and> 0 < n \<longrightarrow> 0 < fst (sys_read E p n))"
  shows "0 \<le> rd_ret (do_read E src c)"
    and "0 < c \<Longrightarrow> rd_ret (do_read E src c) = 0 \<longleftrightarrow> src = []"
proof -
  obtain a e where s: "sys_read E src c = (a, e)" by (cases "sys_read E src c")
  from assms have "0 \<le> fst (sys_read E src c)" by blast
  with s have a: "0 \<le> a" by simp
  with s show "0 \<le> rd_ret (do_read E src c)" by (simp add: do_read_def Let_def)
  show "rd_ret (do_read E src c) = 0 \<longleftrightarrow> src = []" if c: "0 < c"
  proof (cases "src = []")
    case True
    with s a show ?thesis by (simp add: do_read_def Let_def)
  next
    case False
    with assms c have "0 < fst (sys_read E src c)" by blast
    with s False c show ?thesis by (simp add: do_read_def Let_def)
  qed
qed

lemma do_write_good:
  assumes "\<forall>s d. int (length d) \<le> fst (sys_write E s d)"
  shows "wr_ret (do_write E snk d) = int (length d)" and "wr_snk (do_write E snk d) = snk @ d"
proof -
  obtain a e where s: "sys_write E snk d = (a, e)" by (cases "sys_write E snk d")
  from assms have "int (length d) \<le> fst (sys_write E snk d)" by blast
  with s have "int (length d) \<le> a" by simp
  with s show "wr_ret (do_write E snk d) = int (length d)" "wr_snk (do_write E snk d) = snk @ d"
    by (auto simp: do_write_def Let_def min_def)
qed

lemma relay_delivers:
  assumes R: "\<forall>p n. 0 \<le> fst (sys_read E p n) \<and> (p \<noteq> [] \<and> 0 < n \<longrightarrow> 0 < fst (sys_read E p n))"
    and W: "\<forall>s d. int (length d) \<le> fst (sys_write E s d)"
  shows "r_exit (relay E rx_fd tx_fd buf src snk) = None \<and>
         r_snk (relay E rx_fd tx_fd buf src snk) = snk @ src \<and>
         r_src (relay E rx_fd tx_fd buf src snk) = [] \<and>
         concat (writes_of (r_events (relay E rx_fd tx_fd buf src snk))) = src \<and>
         (\<forall>d \<in> set (writes_of (r_events (relay E rx_fd tx_fd buf src snk))).
            d \<noteq> [] \<and> length d \<le> BUF_SIZE) \<and>
         reads_of (r_events (relay E rx_fd tx_fd buf src snk)) =
           Suc (length (writes_of (r_events (relay E rx_fd tx_fd buf src snk))))"
proof (induction "length src" arbitrary: buf src snk rule: less_induct)
  case less
  define r where "r = do_read E src BUF_SIZE"
  define w where "w = do_write E snk (rd_data r)"
  note u = relay_unfold [OF r_def [symmetric] w_def [symmetric], of rx_fd tx_fd buf]
  have r0: "0 \<le> rd_ret r" and rz: "rd_ret r = 0 \<longleftrightarrow> src = []"
    using do_read_good [OF R, where src = src and c = BUF_SIZE] by (simp_all add: r_def BUF_SIZE_def)
  have split: "rd_data r @ rd_rest r = src" and len: "length (rd_data r) = nat (rd_ret r)"
    and le: "nat (rd_ret r) \<le> BUF_SIZE"
    using do_read_nonneg [where E = E and src = src and c = BUF_SIZE] r0 by (simp_all add: r_def)
  have wr: "wr_ret w = int (length (rd_data r))" and ws: "wr_snk w = snk @ rd_data r"
    using do_write_good [OF W, where snk = snk and d = "rd_data r"] by (simp_all add: w_def)
  show ?case
  proof (cases "src = []")
    case True
    with rz have z: "rd_ret r = 0" by simp
    have e0: "relay E rx_fd tx_fd buf src snk =
        \<lparr>r_events = [SysRead rx_fd BUF_SIZE (rd_ret r)], r_exit = None,
         r_src = rd_rest r, r_snk = snk\<rparr>"
      by (simp add: u z)
    from True split show ?thesis
      unfolding e0 by simp
  next
    case False
    with rz r0 have pos: "0 < rd_ret r" by simp
    let ?res = "relay E rx_fd tx_fd (rd_data r @ drop (nat (rd_ret r)) buf) (rd_rest r) (wr_snk w)"
    from pos wr len have e: "relay E rx_fd tx_fd buf src snk =
        ?res\<lparr>r_events := [SysRead rx_fd BUF_SIZE (rd_ret r), SysWrite tx_fd (rd_data r) (wr_ret w)] @
                            r_events ?res\<rparr>"
      by (simp add: u)
    from pos have "length (rd_rest r) < length src"
      unfolding r_def by (intro relay_rest_shorter)
    note ih = less.hyps [OF this, of "rd_data r @ drop (nat (rd_ret r)) buf" "wr_snk w"]
    from pos len have ne: "rd_data r \<noteq> []" by auto
    from ih ws split ne len le show ?thesis
      by (simp add: e)
  qed
qed

subsection \<open>The relay loop as a whole\<close>

text \<open>
  Claim C1. Let the source never fail and return 0 only when nothing is pending, and let
  the sink take every write whole. Then for every byte sequence \<open>src\<close> the source holds,
  the loop ends with \<open>exit(0)\<close>, and the sink has received exactly \<open>src\<close>: the data of
  the \<open>write\<close> calls, in order, concatenate to \<open>src\<close>. Every write carries between 1
  and \<open>BUF_SIZE\<close> bytes, so a longer sequence takes several cycles (at least
  \<open>length src / BUF_SIZE\<close>), each one \<open>read\<close> followed by one \<open>write\<close>, and a last
  \<open>read\<close> that returns 0.
\<close>

theorem relay_delivers_everything:
  assumes "\<forall>p n. 0 \<le> fst (sys_read E p n) \<and> (p \<noteq> [] \<and> 0 < n \<longrightarrow> 0 < fst (sys_read E p n))"
    and "\<forall>s d. int (length d) \<le> fst (sys_write E s d)"
  shows "status (pump E opt rx_fd tx_fd buf src) = 0 \<and>
         sink (pump E opt rx_fd tx_fd buf src) = src \<and>
         concat (writes_of (events (pump E opt rx_fd tx_fd buf src))) = src \<and>
         (\<forall>d \<in> set (writes_of (events (pump E opt rx_fd tx_fd buf src))).
            d \<noteq> [] \<and> length d \<le> BUF_SIZE) \<and>
         length src \<le> BUF_SIZE * length (writes_of (events (pump E opt rx_fd tx_fd buf src))) \<and>
         reads_of (events (pump E opt rx_fd tx_fd buf src)) =
           Suc (length (writes_of (events (pump E opt rx_fd tx_fd buf src))))"
proof -
  define res where "res = relay E rx_fd tx_fd buf src []"
  note d = relay_delivers [OF assms, of rx_fd tx_fd buf src "[]", folded res_def]
  have p: "pump E opt rx_fd tx_fd buf src =
      \<lparr>events = r_events res @ [SysClose (if opt_write opt then tx_fd else rx_fd)],
       status = 0, sink = r_snk res\<rparr>"
    using d by (simp add: pump_def res_def [symmetric])
  have b: "length (concat (writes_of (r_events res))) \<le> BUF_SIZE * length (writes_of (r_events res))"
    using d by (intro length_concat_bound) simp
  from d b show ?thesis
    by (simp add: p writes_of_append reads_of_append)
qed

text \<open>\<open>"hello\n"\<close> through \<open>tty_sys\<close>, which delivers it in two reads.\<close>

theorem relay_delivers_everything_witness:
  "(\<forall>p n. 0 \<le> fst (sys_read tty_sys p n) \<and>
      (p \<noteq> [] \<and> 0 < n \<longrightarrow> 0 < fst (sys_read tty_sys p n))) \<and>
   (\<forall>s d. int (length d) \<le> fst (sys_write tty_sys s d)) \<and>
   status (pump tty_sys opts0 3 1 [] hello) = 0 \<and>
   sink (pump tty_sys opts0 3 1 [] hello) = hello \<and>
   concat (writes_of (events (pump tty_sys opts0 3 1 [] hello))) = hello \<and>
   length hello \<le> BUF_SIZE * length (writes_of (events (pump tty_sys opts0 3 1 [] hello)))"
proof -
  have R: "\<forall>p n. 0 \<le> fst (sys_read tty_sys p n) \<and>
      (p \<noteq> [] \<and> 0 < n \<longrightarrow> 0 < fst (sys_read tty_sys p n))"
    by (simp add: tty_sys_def)
  have W: "\<forall>s d. int (length d) \<le> fst (sys_write tty_sys s d)"
    by (simp add: tty_sys_def)
  from relay_delivers_everything [OF R W, of opts0 3 1 "[]" hello] R W
  show ?thesis by blast
qed

text \<open>
  Claim C3. If any \<open>write\<close> of a run returns a count that is not negative and less
  than the number of bytes offered (the number just read), the process ends with
  \<open>exit(-1)\<close>, a non-zero status, and that \<open>write\<close> is followed by exactly one more
  effect: the message \<open>Short write %zd < %zu\<close> on the error stream, between the colour
  escapes of \<open>pr_error\<close>, with the count written and the count requested as its
  values. There is no further \<open>read\<close> or \<open>write\<close>, and no \<open>close\<close>.
\<close>

theorem short_write_is_fatal:
  assumes "SysWrite fd d out \<in> set (events (pump E opt rx_fd tx_fd buf src))"
    and "0 \<le> out" and "out < int (length d)"
  shows "status (pump E opt rx_fd tx_fd buf src) = - 1 \<and>
         (\<exists>pre. events (pump E opt rx_fd tx_fd buf src) =
            pre @
            [SysWrite fd d out,
             Stderr (ESC_RED @ ''Short write %zd < %zu\<newline>'' @ ESC_RM)
               [ArgNum out, ArgNum (int (length d))]])"
proof -
  define res where "res = relay E rx_fd tx_fd buf src []"
  define msg where "msg = Stderr (ESC_RED @ ''Short write %zd < %zu\<newline>'' @ ESC_RM)
      [ArgNum out, ArgNum (int (length d))]"
  have m: "SysWrite fd d out \<in> set (r_events res)"
    using assms(1) by (auto simp: pump_def res_def [symmetric] split: option.splits)
  note s = relay_short_write_event [OF m [unfolded res_def] assms(2,3), folded res_def]
  have e: "pr_error ''Short write %zd < %zu\<newline>'' [ArgNum out, ArgNum (int (length d))] = [msg]"
    unfolding pr_error_def msg_def by (rule refl)
  from s have x: "r_exit res = Some (- 1)" and "\<exists>pre. r_events res = pre @ [SysWrite fd d out] @ [msg]"
    unfolding e by simp_all
  then obtain pre where pre: "r_events res = pre @ [SysWrite fd d out, msg]"
    by auto
  from x have p: "pump E opt rx_fd tx_fd buf src =
      \<lparr>events = r_events res, status = - 1, sink = r_snk res\<rparr>"
    by (simp add: pump_def res_def [symmetric])
  have 1: "status (pump E opt rx_fd tx_fd buf src) = - 1"
    by (simp add: p)
  have "events (pump E opt rx_fd tx_fd buf src) = pre @ [SysWrite fd d out, msg]"
    by (simp add: p pre)
  then have 2: "\<exists>pre. events (pump E opt rx_fd tx_fd buf src) = pre @ [SysWrite fd d out, msg]"
    by (rule exI)
  from 1 2 show ?thesis
    unfolding msg_def by (rule conjI)
qed

text \<open>
  \<open>"hello\n"\<close> through \<open>short_sys\<close>: four bytes read, two written, and the message
  with the values 2 and 4.
\<close>

theorem short_write_is_fatal_witness:
  "SysWrite 1 [104, 101, 108, 108] 2 \<in> set (events (pump short_sys opts0 3 1 [] hello)) \<and>
   (0 :: int) \<le> 2 \<and> 2 < int (length [104, 101, 108, 108 :: byte]) \<and>
   status (pump short_sys opts0 3 1 [] hello) = - 1 \<and>
   (\<exists>pre. events (pump short_sys opts0 3 1 [] hello) =
      pre @
      [SysWrite 1 [104, 101, 108, 108] 2,
       Stderr (ESC_RED @ ''Short write %zd < %zu\<newline>'' @ ESC_RM)
         [ArgNum 2, ArgNum (int (length [104, 101, 108, 108 :: byte]))]]) \<and>
   events (pump short_sys opts0 3 1 [] hello) =
     [SysRead 3 BUF_SIZE 4, SysWrite 1 [104, 101, 108, 108] 2,
      Stderr (ESC_RED @ ''Short write %zd < %zu\<newline>'' @ ESC_RM) [ArgNum 2, ArgNum 4]] \<and>
   sink (pump short_sys opts0 3 1 [] hello) = [104, 101]"
proof -
  have p: "pump short_sys opts0 3 1 [] hello =
      \<lparr>events = [SysRead 3 BUF_SIZE 4, SysWrite 1 [104, 101, 108, 108] 2,
                 Stderr (ESC_RED @ ''Short write %zd < %zu\<newline>'' @ ESC_RM)
                   [ArgNum 2, ArgNum 4]],
       status = - 1, sink = [104, 101]\<rparr>"
    by (simp add: pump_def relay.simps do_read_def do_write_def short_sys_def tty_sys_def
        hello_def BUF_SIZE_def Let_def pr_error_def)
  have m: "SysWrite 1 [104, 101, 108, 108] 2 \<in> set (events (pump short_sys opts0 3 1 [] hello))"
    unfolding p by simp
  have a: "(0 :: int) \<le> 2" by simp
  have b: "2 < int (length [104, 101, 108, 108 :: byte])" by simp
  note t = short_write_is_fatal [OF m a b]
  have e: "events (pump short_sys opts0 3 1 [] hello) =
     [SysRead 3 BUF_SIZE 4, SysWrite 1 [104, 101, 108, 108] 2,
      Stderr (ESC_RED @ ''Short write %zd < %zu\<newline>'' @ ESC_RM) [ArgNum 2, ArgNum 4]]"
    unfolding p by simp
  have k: "sink (pump short_sys opts0 3 1 [] hello) = [104, 101]"
    unfolding p by simp
  from m a b t [THEN conjunct1] t [THEN conjunct2] e k show ?thesis
    by (intro conjI)
qed

subsection \<open>Properties of the option loop\<close>

lemma parse_args_help:
  "h = ''-h'' \<or> h = ''--help'' \<Longrightarrow> parse_args E opt (h # rest) = usage"
  by (elim disjE) simp_all

lemma parse_args_speed:
  "f = ''-s'' \<or> f = ''--speed'' \<Longrightarrow>
   parse_args E opt (f # v # rest) =
     parse_args E (opt\<lparr>opt_speed := of_nat (lib_strtoul E v)\<rparr>) rest"
  by (elim disjE) simp_all

lemma main_parse:
  "parse_args E opts0 args = parse_args E opts0 args' \<Longrightarrow>
   main P E (a0 # args) buf src = main P E (a0 # args') buf src"
  by (simp add: main_def)

lemma main_usage:
  "parse_args E opts0 args = usage \<Longrightarrow>
   main P E (a0 # args) buf src =
     \<lparr>events = [Stderr usage_text [ArgProgname]], status = 1, sink = []\<rparr>"
  by (simp add: main_def usage_def seq_def)

lemma main_no_device:
  "main P E [a0] buf src = \<lparr>events = [Stderr usage_text [ArgProgname]], status = 1, sink = []\<rparr>"
  by (simp add: main_def endpoints_def opts0_def usage_def seq_def)

lemma parse_args_append:
  "parse_args E opt pre = ([], Ret opt') \<Longrightarrow> parse_args E opt (pre @ xs) = parse_args E opt' xs"
proof (induction E opt pre rule: parse_args.induct)
  case (1 E opt)
  then show ?case by simp
next
  case (2 E opt a rest)
  define H where "H \<longleftrightarrow> a = ''-h'' \<or> a = ''--help''"
  define F where "F \<longleftrightarrow> a = ''-f'' \<or> a = ''--hwflow''"
  define N where "N \<longleftrightarrow> a = ''-n'' \<or> a = ''--noflow''"
  define R where "R \<longleftrightarrow> a = ''-r'' \<or> a = ''--read''"
  define W where "W \<longleftrightarrow> a = ''-w'' \<or> a = ''--write''"
  define S where "S \<longleftrightarrow> a = ''-s'' \<or> a = ''--speed''"
  define V where "V \<longleftrightarrow> a = ''-v'' \<or> a = ''--verbose''"
  note defs = H_def F_def N_def R_def W_def S_def V_def
  consider (is_h) H | (is_f) F | (is_n) N | (is_r) R | (is_w) W | (is_s) S | (is_v) V
    | (is_o) "\<not> H" "\<not> F" "\<not> N" "\<not> R" "\<not> W" "\<not> S" "\<not> V"
    by blast
  then show ?case
  proof cases
    case is_h
    from is_h [unfolded defs] "2.prems" show ?thesis by (elim disjE) (simp_all add: usage_def)
  next
    case is_f
    from is_f [unfolded defs] "2.prems" "2.IH"(1) show ?thesis by (elim disjE) simp_all
  next
    case is_n
    from is_n [unfolded defs] "2.prems" "2.IH"(2) show ?thesis by (elim disjE) simp_all
  next
    case is_r
    from is_r [unfolded defs] "2.prems" "2.IH"(3) show ?thesis by (elim disjE) simp_all
  next
    case is_w
    from is_w [unfolded defs] "2.prems" "2.IH"(4) show ?thesis by (elim disjE) simp_all
  next
    case is_s
    show ?thesis
    proof (cases rest)
      case Nil
      with is_s [unfolded defs] "2.prems" show ?thesis by (elim disjE) (simp_all add: usage_def)
    next
      case (Cons v rest')
      with is_s [unfolded defs] "2.prems" "2.IH"(5) [of v rest'] show ?thesis by (elim disjE) simp_all
    qed
  next
    case is_v
    from is_v [unfolded defs] "2.prems" "2.IH"(6) show ?thesis by (elim disjE) simp_all
  next
    case is_o
    show ?thesis
    proof (cases "opt_dev opt = None")
      case True
      with is_o [unfolded defs] "2.prems" "2.IH"(7) show ?thesis by simp
    next
      case False
      with is_o [unfolded defs] "2.prems" show ?thesis by (simp add: usage_def)
    qed
  qed
qed

text \<open>
  Claim C10. Whenever the option loop reaches \<open>-h\<close> or \<open>--help\<close> (the arguments before
  it parse without a usage error), the program prints the usage text on the error
  stream and calls \<open>exit(1)\<close>, with no other effect: the very result of the usage error
  of a command line without a device path.
\<close>

theorem help_is_usage_error:
  assumes "parse_args E opts0 pre = ([], Ret opt')" and "h = ''-h'' \<or> h = ''--help''"
  shows "main P E (a0 # pre @ h # rest) buf src =
           \<lparr>events = [Stderr usage_text [ArgProgname]], status = 1, sink = []\<rparr> \<and>
         main P E (a0 # pre @ h # rest) buf src = main P E [a0] buf src \<and>
         status (main P E (a0 # pre @ h # rest) buf src) \<noteq> 0"
proof -
  have "parse_args E opts0 (pre @ h # rest) = usage"
    using parse_args_append [OF assms(1)] parse_args_help [OF assms(2)] by simp
  then have "main P E (a0 # pre @ h # rest) buf src =
           \<lparr>events = [Stderr usage_text [ArgProgname]], status = 1, sink = []\<rparr>"
    by (rule main_usage)
  then show ?thesis by (simp add: main_no_device)
qed

text \<open>\<open>sercat -v /dev/ttyS0 --help\<close> and \<open>sercat -h\<close>.\<close>

theorem help_is_usage_error_witness:
  "parse_args tty_sys opts0 [''-v'', ''/dev/ttyS0''] =
     ([], Ret (opts0\<lparr>opt_dev := Some ''/dev/ttyS0'', opt_verbose := True\<rparr>)) \<and>
   main linux_termbits tty_sys (''sercat'' # [''-v'', ''/dev/ttyS0''] @ ''--help'' # []) [] hello =
     \<lparr>events = [Stderr usage_text [ArgProgname]], status = 1, sink = []\<rparr> \<and>
   main linux_termbits tty_sys [''sercat'', ''-h''] [] hello =
     \<lparr>events = [Stderr usage_text [ArgProgname]], status = 1, sink = []\<rparr>"
proof -
  have p: "parse_args tty_sys opts0 [''-v'', ''/dev/ttyS0''] =
     ([], Ret (opts0\<lparr>opt_dev := Some ''/dev/ttyS0'', opt_verbose := True\<rparr>))"
    by (simp add: opts0_def)
  have q: "parse_args tty_sys opts0 [] = ([], Ret opts0)"
    by simp
  from help_is_usage_error [OF p, of "''--help''" linux_termbits "''sercat''" "[]" "[]" hello]
    help_is_usage_error [OF q, of "''-h''" linux_termbits "''sercat''" "[]" "[]" hello] p
  show ?thesis by simp
qed

subsection \<open>The speed option\<close>

lemma other_steps_no_unknown_speed:
  assumes "ev = Stderr (ESC_RED @ ''Unknown serial speed %u\<newline>'' @ ESC_RM) args"
  shows "ev \<notin> set (fst (open_path E opt pathname flags))"
    and "ev \<notin> set (fst (get_attrs E opt pathname fd))"
    and "ev \<notin> set (fst (raw_mode E opt fd t))"
    and "ev \<notin> set (fst (flow_control E opt fd t))"
    and "ev \<notin> set (fst (flush E opt fd))"
    and "opt_speed opt = 0 \<Longrightarrow> ev \<notin> set (fst (set_speed P E opt fd t))"
  unfolding assms
  by (simp_all add: open_path_def get_attrs_def raw_mode_def flow_control_def flush_def Let_def
      set_speed_zero pr_debug_def pr_error_def pr_info_def split: prod.splits)

lemma device_open_zero_no_unknown_speed:
  assumes "opt_speed opt = 0"
  shows "Stderr (ESC_RED @ ''Unknown serial speed %u\<newline>'' @ ESC_RM) args
           \<notin> set (fst (device_open P E opt pathname flags))"
proof -
  define ev where "ev = Stderr (ESC_RED @ ''Unknown serial speed %u\<newline>'' @ ESC_RM) args"
  note n = other_steps_no_unknown_speed [OF ev_def]
  have "ev \<notin> set (fst (device_open P E opt pathname flags))"
  proof
    assume "ev \<in> set (fst (device_open P E opt pathname flags))"
    from device_open_event [OF this] show False
      by (elim disjE exE) (simp_all add: n(1-5) n(6) [OF assms])
  qed
  then show ?thesis unfolding ev_def .
qed

lemma speeds_sym_inj:
  assumes "inj_on P (dom P)" and "e \<in> set (speeds P)" and "e' \<in> set (speeds P)"
    and "sym e = sym e'"
  shows "e = e'"
proof -
  from assms(1) have "inj_on sym (set (speeds P))"
    using speeds_sym_distinct [of P] by (simp add: distinct_map)
  with assms(2-4) show ?thesis by (simp add: inj_on_def)
qed

lemma cfsetspeed_not_B0:
  assumes "LibCfsetspeed x \<in> set (fst (device_open P E opt pathname flags))"
    and "inj_on P (dom P)"
  shows "P B0 \<noteq> Some x"
proof
  assume b: "P B0 = Some x"
  from device_open_cfsetspeed [OF assms(1)]
  have nz: "opt_speed opt \<noteq> 0" and x: "x = get_speed_sym P (opt_speed opt)"
    and "get_speed_sym P (opt_speed opt) \<noteq> - 1"
    by auto
  then have "scan_sym (speeds P) (opt_speed opt) \<noteq> - 1"
    by (simp add: get_speed_sym_def)
  from scan_sym_found [OF this] x obtain e
    where e: "e \<in> set (speeds P)" "val e = opt_speed opt" "sym e = x"
    by (auto simp: get_speed_sym_def)
  from b have z: "\<lparr>sym = x, val = 0\<rparr> \<in> set (speeds P)"
    by (rule speeds_zero_entry)
  from speeds_sym_inj [OF assms(2) e(1) z] e(3) have "e = \<lparr>sym = x, val = 0\<rparr>"
    by simp
  with e(2) nz show False by simp
qed

text \<open>
  Claim C9. \<open>opt_speed\<close> starts as 0, and a speed option whose argument \<open>strtoul\<close>
  and the conversion to 32 bits turn into 0 puts it back to that initial value; after
  arguments that leave the speed at 0, the program with such an option does exactly what
  it does without it. With \<open>opt_speed\<close> 0 the speed step only prints the current speed
  in verbose mode and leaves the attributes as they are, and \<open>device_open\<close> neither
  calls \<open>cfsetspeed\<close> nor reports an unknown speed. Whenever \<open>cfsetspeed\<close> is called,
  its symbol is the one of a non-zero \<open>opt_speed\<close>, which is not \<open>B0\<close> where distinct
  macros have distinct codes: the row of 0 bps is never selected.
\<close>

theorem zero_speed_is_no_speed:
  "opt_speed opts0 = 0 \<and>
   ((f = ''-s'' \<or> f = ''--speed'') \<and> (of_nat (lib_strtoul E v) :: 32 word) = 0 \<longrightarrow>
      parse_args E opt (f # v # rest) =
        parse_args E (opt\<lparr>opt_speed := opt_speed opts0\<rparr>) rest) \<and>
   ((f = ''-s'' \<or> f = ''--speed'') \<and> (of_nat (lib_strtoul E v) :: 32 word) = 0 \<and>
    parse_args E opts0 pre = ([], Ret opt') \<and> opt_speed opt' = 0 \<longrightarrow>
      main P E (a0 # pre @ f # v # rest) buf src = main P E (a0 # pre @ rest) buf src) \<and>
   (opt_speed opt = 0 \<longrightarrow>
      set_speed P E opt fd t =
        (pr_debug opt ''Serial speed is %u/%u\<newline>''
           [ArgNum (get_speed_val P (lib_cfgetispeed E t)),
            ArgNum (get_speed_val P (lib_cfgetospeed E t))],
         Ret t) \<and>
      (\<forall>x. LibCfsetspeed x \<notin> set (fst (device_open P E opt pathname flags))) \<and>
      (\<forall>args. Stderr (ESC_RED @ ''Unknown serial speed %u\<newline>'' @ ESC_RM) args
                \<notin> set (fst (device_open P E opt pathname flags)))) \<and>
   (LibCfsetspeed x \<in> set (fst (device_open P E opt pathname flags)) \<longrightarrow>
      opt_speed opt \<noteq> 0 \<and> x = get_speed_sym P (opt_speed opt) \<and>
      (inj_on P (dom P) \<longrightarrow> P B0 \<noteq> Some x))"
  (is "?A \<and> ?B \<and> ?C \<and> ?D \<and> ?G")
proof -
  have A: ?A by (simp add: opts0_def)
  have B: ?B
  proof
    assume h: "(f = ''-s'' \<or> f = ''--speed'') \<and> (of_nat (lib_strtoul E v) :: 32 word) = 0"
    then have "parse_args E opt (f # v # rest) =
        parse_args E (opt\<lparr>opt_speed := of_nat (lib_strtoul E v)\<rparr>) rest"
      by (intro parse_args_speed) simp
    with h A show "parse_args E opt (f # v # rest) =
        parse_args E (opt\<lparr>opt_speed := opt_speed opts0\<rparr>) rest"
      by simp
  qed
  have C: ?C
  proof
    assume h: "(f = ''-s'' \<or> f = ''--speed'') \<and> (of_nat (lib_strtoul E v) :: 32 word) = 0 \<and>
      parse_args E opts0 pre = ([], Ret opt') \<and> opt_speed opt' = 0"
    then have p: "parse_args E opts0 pre = ([], Ret opt')" and z: "opt_speed opt' = 0"
      and f: "f = ''-s'' \<or> f = ''--speed''" and v: "(of_nat (lib_strtoul E v) :: 32 word) = 0"
      by simp_all
    have "opt'\<lparr>opt_speed := of_nat (lib_strtoul E v)\<rparr> = opt'"
      using z v by simp
    then have "parse_args E opt' (f # v # rest) = parse_args E opt' rest"
      using parse_args_speed [OF f, of E opt' v rest] by simp
    then have "parse_args E opts0 (pre @ f # v # rest) = parse_args E opts0 (pre @ rest)"
      by (simp add: parse_args_append [OF p])
    then show "main P E (a0 # pre @ f # v # rest) buf src = main P E (a0 # pre @ rest) buf src"
      by (rule main_parse)
  qed
  have D: ?D
  proof (intro impI conjI allI)
    assume z: "opt_speed opt = 0"
    then show "set_speed P E opt fd t =
        (pr_debug opt ''Serial speed is %u/%u\<newline>''
           [ArgNum (get_speed_val P (lib_cfgetispeed E t)),
            ArgNum (get_speed_val P (lib_cfgetospeed E t))],
         Ret t)"
      by (rule set_speed_zero)
    show "LibCfsetspeed x \<notin> set (fst (device_open P E opt pathname flags))" for x
      using device_open_cfsetspeed [of x P E opt pathname flags] z by blast
    show "Stderr (ESC_RED @ ''Unknown serial speed %u\<newline>'' @ ESC_RM) args
                \<notin> set (fst (device_open P E opt pathname flags))" for args
      using z by (rule device_open_zero_no_unknown_speed)
  qed
  have G: ?G
    using device_open_cfsetspeed [of x P E opt pathname flags]
      cfsetspeed_not_B0 [of x P E opt pathname flags]
    by (intro impI conjI) simp_all
  from A B C D G show ?thesis by (intro conjI)
qed

text \<open>
  \<open>sercat -w -s abc /dev/ttyS0\<close> against \<open>sercat -w /dev/ttyS0\<close>, the options without a
  speed, and the speed 115200 with the Linux table (symbol 4098).
\<close>

theorem zero_speed_is_no_speed_witness:
  "(of_nat (lib_strtoul tty_sys ''abc'') :: 32 word) = 0 \<and>
   parse_args tty_sys opts0 [''-w''] = ([], Ret (opts0\<lparr>opt_write := True\<rparr>)) \<and>
   opt_speed (opts0\<lparr>opt_write := True\<rparr>) = 0 \<and>
   main linux_termbits tty_sys (''sercat'' # [''-w''] @ ''-s'' # ''abc'' # [''/dev/ttyS0'']) [] hello =
     main linux_termbits tty_sys (''sercat'' # [''-w''] @ [''/dev/ttyS0'']) [] hello \<and>
   (\<forall>x. LibCfsetspeed x
      \<notin> set (fst (device_open linux_termbits tty_sys opts0 ''/dev/ttyS0'' O_WRONLY))) \<and>
   LibCfsetspeed 4098
      \<in> set (fst (device_open linux_termbits tty_sys (opts0\<lparr>opt_speed := 115200\<rparr>)
                     ''/dev/ttyS0'' O_WRONLY)) \<and>
   inj_on linux_termbits (dom linux_termbits) \<and>
   linux_termbits B0 \<noteq> Some 4098"
proof -
  have v: "(of_nat (lib_strtoul tty_sys ''abc'') :: 32 word) = 0"
    by (simp add: tty_sys_def)
  have p: "parse_args tty_sys opts0 [''-w''] = ([], Ret (opts0\<lparr>opt_write := True\<rparr>))"
    by simp
  have z: "opt_speed (opts0\<lparr>opt_write := True\<rparr>) = 0"
    by (simp add: opts0_def)
  have z0: "opt_speed opts0 = 0"
    by (simp add: opts0_def)
  have s: "get_speed_sym linux_termbits 115200 = 4098"
    by (simp add: get_speed_sym_def speeds_def speed_rows_def)
  have c: "LibCfsetspeed 4098
      \<in> set (fst (device_open linux_termbits tty_sys (opts0\<lparr>opt_speed := 115200\<rparr>)
                     ''/dev/ttyS0'' O_WRONLY))"
  proof -
    let ?opt = "opts0\<lparr>opt_speed := 115200\<rparr>"
    have nv: "\<not> opt_verbose ?opt" "\<not> opt_hwflow ?opt" "\<not> opt_noflow ?opt"
      "opt_speed ?opt = 115200"
      by (simp_all add: opts0_def)
    have 1: "open_path tty_sys ?opt ''/dev/ttyS0'' O_WRONLY =
        ([SysOpen ''/dev/ttyS0'' O_WRONLY], Ret 3)"
      by (simp add: open_path_def pr_debug_def nv tty_sys_def)
    have 2: "get_attrs tty_sys ?opt ''/dev/ttyS0'' 3 = ([SysTcgetattr 3], Ret (Some termios0))"
      by (simp add: get_attrs_def pr_debug_def nv tty_sys_def)
    have 3: "raw_mode tty_sys ?opt 3 termios0 =
        ([LibCfmakeraw, SysTcsetattr 3 termios0], Ret termios0)"
      by (simp add: raw_mode_def pr_debug_def nv tty_sys_def)
    have 4: "flow_control tty_sys ?opt 3 termios0 = ([], Ret termios0)"
      by (simp add: flow_control_def nv)
    have 5: "set_speed linux_termbits tty_sys ?opt 3 termios0 =
        ([LibCfsetspeed 4098,
          SysTcsetattr 3 (termios0\<lparr>c_ispeed := 4098, c_ospeed := 4098\<rparr>)],
         Ret (termios0\<lparr>c_ispeed := 4098, c_ospeed := 4098\<rparr>))"
      by (simp add: set_speed_def pr_debug_def nv s tty_sys_def)
    have 6: "flush tty_sys ?opt 3 = ([SysTcflush 3], Ret ())"
      by (simp add: flush_def pr_debug_def nv tty_sys_def)
    have "device_open linux_termbits tty_sys ?opt ''/dev/ttyS0'' O_WRONLY =
        ([SysOpen ''/dev/ttyS0'' O_WRONLY, SysTcgetattr 3, LibCfmakeraw,
          SysTcsetattr 3 termios0, LibCfsetspeed 4098,
          SysTcsetattr 3 (termios0\<lparr>c_ispeed := 4098, c_ospeed := 4098\<rparr>),
          SysTcflush 3],
         Ret 3)"
      by (simp add: device_open_def 1 2 3 4 5 6 seq_Ret)
    then show ?thesis
      by simp
  qed
  note t1 = zero_speed_is_no_speed [of "''-s''" tty_sys "''abc''" opts0 "[''/dev/ttyS0'']"
      "[''-w'']" "opts0\<lparr>opt_write := True\<rparr>" linux_termbits "''sercat''" "[]" hello
      3 termios0 "''/dev/ttyS0''" O_WRONLY 0]
  note t2 = zero_speed_is_no_speed [of "''-s''" tty_sys "''abc''" "opts0\<lparr>opt_speed := 115200\<rparr>"
      "[]" "[]" opts0 linux_termbits "''sercat''" "[]" hello
      3 termios0 "''/dev/ttyS0''" O_WRONLY 4098]
  have m: "main linux_termbits tty_sys
      (''sercat'' # [''-w''] @ ''-s'' # ''abc'' # [''/dev/ttyS0'']) [] hello =
     main linux_termbits tty_sys (''sercat'' # [''-w''] @ [''/dev/ttyS0'']) [] hello"
    by (rule t1 [THEN conjunct2, THEN conjunct2, THEN conjunct1, rule_format])
       (intro conjI disjI1 refl v p z)
  note n = t1 [THEN conjunct2, THEN conjunct2, THEN conjunct2, THEN conjunct1, rule_format,
      OF z0, THEN conjunct2, THEN conjunct1]
  note b = t2 [THEN conjunct2, THEN conjunct2, THEN conjunct2, THEN conjunct2, rule_format,
      OF c, THEN conjunct2, THEN conjunct2, rule_format, OF linux_termbits_inj]
  from v p z m n c linux_termbits_inj b show ?thesis by (intro conjI)
qed

subsection \<open>Shutdown\<close>

lemma parse_args_cases:
  "parse_args E opt args = usage \<or> (\<exists>opt'. parse_args E opt args = ([], Ret opt'))"
  by (induction E opt args rule: parse_args.induct) (simp_all split: list.splits)

lemma seq_Exit_inv:
  assumes "seq m f = (t, Exit c)"
  shows "(\<exists>t'. m = (t', Exit c)) \<or> (\<exists>t1 v t2. m = (t1, Ret v) \<and> f v = (t2, Exit c))"
  using assms by (cases m; cases "snd m") (auto simp: seq_def split: prod.splits)

lemma seq_Ret_inv:
  assumes "seq m f = (t, Ret r)"
  shows "\<exists>t1 v t2. m = (t1, Ret v) \<and> f v = (t2, Ret r) \<and> t = t1 @ t2"
  using assms by (cases m; cases "snd m") (auto simp: seq_def split: prod.splits)

lemma steps_exit:
  "open_path E opt pathname flags = (tr, Exit c) \<Longrightarrow> c = - 1"
  "get_attrs E opt pathname fd = (tr, Exit c) \<Longrightarrow> c = - 1"
  "set_speed P E opt fd t = (tr, Exit c) \<Longrightarrow> c = - 1"
  "flush E opt fd = (tr, Exit c) \<Longrightarrow> c = - 1"
  by (auto simp: open_path_def get_attrs_def set_speed_def flush_def Let_def
      split: prod.splits if_splits)

lemma seq_ExitE:
  assumes "seq m f = (t, Exit c)"
  obtains (first) t' where "m = (t', Exit c)"
    | (second) t1 v t2 where "m = (t1, Ret v)" and "f v = (t2, Exit c)"
  using seq_Exit_inv [OF assms] by blast

lemma device_open_exit:
  assumes "device_open P E opt pathname flags = (tr, Exit c)"
  shows "c = - 1"
  using assms unfolding device_open_def
  apply (elim seq_ExitE)
    apply (erule steps_exit)
   apply (erule steps_exit)
  subgoal for t1 fd t2 t1' attrs t2'
    apply (cases attrs)
     apply simp
    apply simp
    apply (elim seq_ExitE)
        apply (erule raw_mode_exit)
       apply (erule flow_control_exit)
      apply (erule steps_exit)
     apply (erule steps_exit)
    apply simp
    done
  done

lemma seq_RetE:
  assumes "seq m f = (t, Ret r)"
  obtains t1 v t2 where "m = (t1, Ret v)" and "f v = (t2, Ret r)" and "t = t1 @ t2"
  using seq_Ret_inv [OF assms] by blast

lemma open_path_Ret:
  "open_path E opt pathname flags = (t, Ret fd) \<Longrightarrow>
   fd = fst (sys_open E pathname flags) \<and> SysOpen pathname flags \<in> set t"
  by (auto simp: open_path_def split: prod.splits if_splits)

lemma device_open_Ret:
  assumes "device_open P E opt pathname flags = (t, Ret fd)"
  shows "fd = fst (sys_open E pathname flags) \<and> SysOpen pathname flags \<in> set t"
  using assms unfolding device_open_def
  apply (elim seq_RetE)
  subgoal for t1 fd' t2 t3 attrs t4
    apply (drule open_path_Ret)
    apply (cases attrs)
     apply simp
    apply simp
    apply (elim seq_RetE)
    apply simp
    done
  done

lemma steps_no_close:
  "ev \<in> set (fst (open_path E opt pathname flags)) \<Longrightarrow> \<not> is_close ev"
  "ev \<in> set (fst (get_attrs E opt pathname fd)) \<Longrightarrow> \<not> is_close ev"
  "ev \<in> set (fst (raw_mode E opt fd t)) \<Longrightarrow> \<not> is_close ev"
  "ev \<in> set (fst (flow_control E opt fd t)) \<Longrightarrow> \<not> is_close ev"
  "ev \<in> set (fst (set_speed P E opt fd t)) \<Longrightarrow> \<not> is_close ev"
  "ev \<in> set (fst (flush E opt fd)) \<Longrightarrow> \<not> is_close ev"
  by (auto simp: open_path_def get_attrs_def raw_mode_def flow_control_def set_speed_def
      flush_def Let_def pr_debug_def pr_error_def pr_info_def split: prod.splits if_splits)

lemma device_open_no_close: "filter is_close (fst (device_open P E opt pathname flags)) = []"
proof -
  have "\<not> is_close ev" if "ev \<in> set (fst (device_open P E opt pathname flags))" for ev
    using device_open_event [OF that] by (elim disjE exE) (erule steps_no_close)+
  then show ?thesis by (simp add: filter_empty_conv)
qed

lemma relay_exit_and_close:
  "(\<forall>c. r_exit (relay E rx_fd tx_fd buf src snk) = Some c \<longrightarrow> c = - 1) \<and>
   filter is_close (r_events (relay E rx_fd tx_fd buf src snk)) = []"
proof (induction "length src" arbitrary: buf src snk rule: less_induct)
  case less
  define r where "r = do_read E src BUF_SIZE"
  define w where "w = do_write E snk (rd_data r)"
  note u = relay_unfold [OF r_def [symmetric] w_def [symmetric], of rx_fd tx_fd buf]
  show ?case
  proof (cases "0 < rd_ret r \<and> rd_ret r \<le> wr_ret w")
    case True
    then have "length (rd_rest r) < length src"
      unfolding r_def by (intro relay_rest_shorter) simp
    from less.hyps [OF this, of "rd_data r @ drop (nat (rd_ret r)) buf" "wr_snk w"] True
    show ?thesis by (simp add: u)
  next
    case False
    then show ?thesis by (auto simp: u pr_error_def)
  qed
qed

lemma pump_status_0:
  assumes "status (pump E opt rx_fd tx_fd buf src) = 0"
  shows "\<exists>t. events (pump E opt rx_fd tx_fd buf src) =
               t @ [SysClose (if opt_write opt then tx_fd else rx_fd)] \<and>
             filter is_close t = []"
proof (cases "r_exit (relay E rx_fd tx_fd buf src [])")
  case None
  then show ?thesis
    using relay_exit_and_close [of E rx_fd tx_fd buf src "[]"] by (auto simp: pump_def Let_def)
next
  case (Some c)
  with relay_exit_and_close [of E rx_fd tx_fd buf src "[]"] have "c = - 1" by simp
  with Some assms show ?thesis by (simp add: pump_def Let_def)
qed

lemma endpoints_Exit: "endpoints P E opt = (t, Exit c) \<Longrightarrow> c \<noteq> 0"
  unfolding endpoints_def
  by (auto simp: usage_def split: option.splits if_splits elim!: seq_ExitE dest: device_open_exit)

lemma endpoints_Ret:
  assumes "endpoints P E opt = (t, Ret (rx_fd, tx_fd))"
  shows "\<exists>dev fd. opt_dev opt = Some dev \<and>
           device_open P E opt dev (if opt_write opt then O_WRONLY else O_RDONLY) = (t, Ret fd) \<and>
           (if opt_write opt then tx_fd else rx_fd) = fd \<and>
           (if opt_write opt then rx_fd else tx_fd) = (if opt_write opt then 0 else 1)"
  using assms unfolding endpoints_def
  by (auto simp: usage_def split: option.splits if_splits elim!: seq_RetE)

lemma main_status_0:
  assumes "status (main P E argv buf src) = 0"
  obtains opt t rx_fd tx_fd where "parse_args E opts0 (drop 1 argv) = ([], Ret opt)"
    and "endpoints P E opt = (t, Ret (rx_fd, tx_fd))"
    and "main P E argv buf src =
           (pump E opt rx_fd tx_fd buf src)\<lparr>events := t @ events (pump E opt rx_fd tx_fd buf src)\<rparr>"
proof -
  define m where "m = seq (parse_args E opts0 (drop 1 argv)) (\<lambda>opt.
             seq (endpoints P E opt) (\<lambda>fds. ([], Ret (opt, fds))))"
  have mm: "main P E argv buf src =
      (case m of
         (t, Exit c) \<Rightarrow> \<lparr>events = t, status = c, sink = []\<rparr>
       | (t, Ret (opt, rx_fd, tx_fd)) \<Rightarrow>
           (let res = pump E opt rx_fd tx_fd buf src
            in res\<lparr>events := t @ events res\<rparr>))"
    unfolding main_def m_def by (rule refl)
  obtain t r where mr: "m = (t, r)" by (cases m)
  show thesis
  proof (cases r)
    case (Exit c)
    with mr assms have c: "c = 0"
      by (simp add: mm)
    from mr Exit c have "seq (parse_args E opts0 (drop 1 argv)) (\<lambda>opt.
             seq (endpoints P E opt) (\<lambda>fds. ([], Ret (opt, fds)))) = (t, Exit 0)"
      by (simp add: m_def)
    then have False
    proof (cases rule: seq_ExitE)
      case (first t')
      with parse_args_cases [of E opts0 "drop 1 argv"] show False
        by (elim disjE exE) (simp_all add: usage_def)
    next
      case (second t1 opt t2)
      from second(2) show False
      proof (cases rule: seq_ExitE)
        case (first t')
        then show False by (auto dest: endpoints_Exit)
      next
        case (second t1 v t2)
        then show False by simp
      qed
    qed
    then show thesis ..
  next
    case (Ret x)
    obtain opt rx_fd tx_fd where x: "x = (opt, rx_fd, tx_fd)" by (cases x)
    from mr Ret x have s: "seq (parse_args E opts0 (drop 1 argv)) (\<lambda>opt.
             seq (endpoints P E opt) (\<lambda>fds. ([], Ret (opt, fds)))) = (t, Ret (opt, rx_fd, tx_fd))"
      by (simp add: m_def)
    from s obtain t1 opt' t2 where p: "parse_args E opts0 (drop 1 argv) = (t1, Ret opt')"
      and e: "seq (endpoints P E opt') (\<lambda>fds. ([], Ret (opt', fds))) = (t2, Ret (opt, rx_fd, tx_fd))"
      and t: "t = t1 @ t2"
      by (rule seq_RetE)
    from p parse_args_cases [of E opts0 "drop 1 argv"] have t1: "t1 = []"
      by (elim disjE exE) (simp_all add: usage_def)
    from e obtain t3 fds t4 where e3: "endpoints P E opt' = (t3, Ret fds)"
      and e4: "([], Ret (opt', fds)) = (t4, Ret (opt, rx_fd, tx_fd))" and t2: "t2 = t3 @ t4"
      by (rule seq_RetE)
    from e4 have o: "opt' = opt" "fds = (rx_fd, tx_fd)" "t4 = []" by simp_all
    have 1: "parse_args E opts0 (drop 1 argv) = ([], Ret opt)"
      using p t1 o by simp
    have 2: "endpoints P E opt = (t, Ret (rx_fd, tx_fd))"
      using e3 o t t1 t2 by simp
    have 3: "main P E argv buf src =
           (pump E opt rx_fd tx_fd buf src)\<lparr>events := t @ events (pump E opt rx_fd tx_fd buf src)\<rparr>"
      using mr Ret x by (simp add: mm Let_def)
    from 1 2 3 show thesis by (rule that)
  qed
qed

text \<open>
  Claim C8. A run that ends with \<open>exit(0)\<close> has parsed its options, opened the device
  path in the mode of its direction, and its one and only \<open>close\<close> is its last effect,
  on the descriptor that \<open>open\<close> returned for the device. So descriptor 0 and
  descriptor 1, the inherited standard streams, are never closed (unless \<open>open\<close> itself
  returned that number, which it cannot while the stream is open).
\<close>

theorem closes_only_the_device:
  assumes "status (main P E argv buf src) = 0"
  shows "\<exists>opt dev fd.
           parse_args E opts0 (drop 1 argv) = ([], Ret opt) \<and> opt_dev opt = Some dev \<and>
           fd = fst (sys_open E dev (if opt_write opt then O_WRONLY else O_RDONLY)) \<and>
           SysOpen dev (if opt_write opt then O_WRONLY else O_RDONLY)
             \<in> set (events (main P E argv buf src)) \<and>
           filter is_close (events (main P E argv buf src)) = [SysClose fd] \<and>
           last (events (main P E argv buf src)) = SysClose fd \<and>
           (fd \<noteq> 0 \<longrightarrow> SysClose 0 \<notin> set (events (main P E argv buf src))) \<and>
           (fd \<noteq> 1 \<longrightarrow> SysClose 1 \<notin> set (events (main P E argv buf src)))"
proof -
  from assms obtain opt t rx_fd tx_fd
    where p: "parse_args E opts0 (drop 1 argv) = ([], Ret opt)"
      and e: "endpoints P E opt = (t, Ret (rx_fd, tx_fd))"
      and m: "main P E argv buf src =
           (pump E opt rx_fd tx_fd buf src)\<lparr>events := t @ events (pump E opt rx_fd tx_fd buf src)\<rparr>"
    by (rule main_status_0)
  from endpoints_Ret [OF e] obtain dev fd where dev: "opt_dev opt = Some dev"
    and d: "device_open P E opt dev (if opt_write opt then O_WRONLY else O_RDONLY) = (t, Ret fd)"
    and fd: "(if opt_write opt then tx_fd else rx_fd) = fd"
    by blast
  from device_open_Ret [OF d]
  have fd': "fd = fst (sys_open E dev (if opt_write opt then O_WRONLY else O_RDONLY))"
    and op: "SysOpen dev (if opt_write opt then O_WRONLY else O_RDONLY) \<in> set t"
    by simp_all
  from device_open_no_close [of P E opt dev "if opt_write opt then O_WRONLY else O_RDONLY"] d
  have nc: "filter is_close t = []" by simp
  from assms m have "status (pump E opt rx_fd tx_fd buf src) = 0" by simp
  from pump_status_0 [OF this] fd obtain t' where
    ev: "events (pump E opt rx_fd tx_fd buf src) = t' @ [SysClose fd]"
    and nc': "filter is_close t' = []"
    by auto
  have all: "events (main P E argv buf src) = t @ t' @ [SysClose fd]"
    using m ev by simp
  have f: "filter is_close (events (main P E argv buf src)) = [SysClose fd]"
    using nc nc' by (simp add: all)
  have no: "SysClose x \<notin> set (events (main P E argv buf src))" if "x \<noteq> fd" for x
  proof
    assume "SysClose x \<in> set (events (main P E argv buf src))"
    then have "SysClose x \<in> set (filter is_close (events (main P E argv buf src)))"
      by simp
    with f that show False by simp
  qed
  have l: "last (events (main P E argv buf src)) = SysClose fd"
    by (simp add: all)
  from p dev fd' op f l no [of 0] no [of 1] show ?thesis
    by (intro exI [of _ opt] exI [of _ dev] exI [of _ fd] conjI impI) (simp_all add: all)
qed

lemma main_run:
  assumes "parse_args E opts0 (drop 1 argv) = ([], Ret opt)"
    and "endpoints P E opt = (t, Ret (rx_fd, tx_fd))"
  shows "main P E argv buf src =
           (pump E opt rx_fd tx_fd buf src)\<lparr>events := t @ events (pump E opt rx_fd tx_fd buf src)\<rparr>"
  unfolding main_def assms(1) by (simp add: seq_Ret assms(2) Let_def)

text \<open>\<open>sercat /tmp/f\<close> on the regular file of \<open>file_sys\<close>, holding \<open>"hello\n"\<close>.\<close>

theorem closes_only_the_device_witness:
  "status (main linux_termbits file_sys [''sercat'', ''/tmp/f''] [] hello) = 0 \<and>
   events (main linux_termbits file_sys [''sercat'', ''/tmp/f''] [] hello) =
     [SysOpen ''/tmp/f'' O_RDONLY, SysTcgetattr 3,
      Stdout ''%s is not a tty, skipping tty config\<newline>'' [ArgStr ''/tmp/f''],
      SysRead 3 BUF_SIZE 4, SysWrite 1 [104, 101, 108, 108] 4,
      SysRead 3 BUF_SIZE 2, SysWrite 1 [111, 10] 2,
      SysRead 3 BUF_SIZE 0, SysClose 3] \<and>
   (\<exists>opt dev fd.
      parse_args file_sys opts0 (drop 1 [''sercat'', ''/tmp/f'']) = ([], Ret opt) \<and>
      opt_dev opt = Some dev \<and>
      fd = fst (sys_open file_sys dev (if opt_write opt then O_WRONLY else O_RDONLY)) \<and>
      SysOpen dev (if opt_write opt then O_WRONLY else O_RDONLY)
        \<in> set (events (main linux_termbits file_sys [''sercat'', ''/tmp/f''] [] hello)) \<and>
      filter is_close (events (main linux_termbits file_sys [''sercat'', ''/tmp/f''] [] hello)) =
        [SysClose fd] \<and>
      last (events (main linux_termbits file_sys [''sercat'', ''/tmp/f''] [] hello)) = SysClose fd \<and>
      (fd \<noteq> 0 \<longrightarrow>
         SysClose 0 \<notin> set (events (main linux_termbits file_sys [''sercat'', ''/tmp/f''] [] hello))) \<and>
      (fd \<noteq> 1 \<longrightarrow>
         SysClose 1 \<notin> set (events (main linux_termbits file_sys [''sercat'', ''/tmp/f''] [] hello))))"
proof -
  let ?opt = "opts0\<lparr>opt_dev := Some ''/tmp/f''\<rparr>"
  have nv: "\<not> opt_verbose ?opt" "\<not> opt_hwflow ?opt" "\<not> opt_noflow ?opt" "\<not> opt_write ?opt"
    "\<not> opt_read ?opt" "opt_dev ?opt = Some ''/tmp/f''"
    by (simp_all add: opts0_def)
  have p: "parse_args file_sys opts0 (drop 1 [''sercat'', ''/tmp/f'']) = ([], Ret ?opt)"
    by (simp add: opts0_def)
  have o: "sys_open file_sys ''/tmp/f'' O_RDONLY = (3, 0)"
    by (simp add: file_sys_def tty_sys_def)
  have g: "sys_tcgetattr file_sys 3 = (- 1, ENOTTY, termios0)"
    by (simp add: file_sys_def tty_sys_def)
  have d: "device_open linux_termbits file_sys ?opt ''/tmp/f'' O_RDONLY =
      ([SysOpen ''/tmp/f'' O_RDONLY, SysTcgetattr 3,
        Stdout ''%s is not a tty, skipping tty config\<newline>'' [ArgStr ''/tmp/f'']], Ret 3)"
    using device_open_not_tty [OF o _ g, of linux_termbits ?opt]
    by (simp add: pr_debug_def pr_info_def nv)
  have e: "endpoints linux_termbits file_sys ?opt =
      ([SysOpen ''/tmp/f'' O_RDONLY, SysTcgetattr 3,
        Stdout ''%s is not a tty, skipping tty config\<newline>'' [ArgStr ''/tmp/f'']], Ret (3, 1))"
    by (simp add: endpoints_def nv d seq_Ret)
  have r: "sys_read file_sys = (\<lambda>pending count. (int (min 4 (min count (length pending))), 0))"
    "sys_write file_sys = (\<lambda>received data. (int (length data), 0))"
    by (simp_all add: file_sys_def tty_sys_def)
  have u: "pump file_sys ?opt 3 1 [] hello =
      \<lparr>events = [SysRead 3 BUF_SIZE 4, SysWrite 1 [104, 101, 108, 108] 4,
                 SysRead 3 BUF_SIZE 2, SysWrite 1 [111, 10] 2,
                 SysRead 3 BUF_SIZE 0, SysClose 3],
       status = 0, sink = hello\<rparr>"
    by (simp add: pump_def relay.simps do_read_def do_write_def r hello_def BUF_SIZE_def Let_def nv)
  have m: "main linux_termbits file_sys [''sercat'', ''/tmp/f''] [] hello =
      \<lparr>events = [SysOpen ''/tmp/f'' O_RDONLY, SysTcgetattr 3,
        Stdout ''%s is not a tty, skipping tty config\<newline>'' [ArgStr ''/tmp/f''],
        SysRead 3 BUF_SIZE 4, SysWrite 1 [104, 101, 108, 108] 4,
        SysRead 3 BUF_SIZE 2, SysWrite 1 [111, 10] 2,
        SysRead 3 BUF_SIZE 0, SysClose 3],
       status = 0, sink = hello\<rparr>"
    by (simp add: main_run [OF p e] u)
  have s: "status (main linux_termbits file_sys [''sercat'', ''/tmp/f''] [] hello) = 0"
    by (simp add: m)
  have v: "events (main linux_termbits file_sys [''sercat'', ''/tmp/f''] [] hello) =
      [SysOpen ''/tmp/f'' O_RDONLY, SysTcgetattr 3,
        Stdout ''%s is not a tty, skipping tty config\<newline>'' [ArgStr ''/tmp/f''],
        SysRead 3 BUF_SIZE 4, SysWrite 1 [104, 101, 108, 108] 4,
        SysRead 3 BUF_SIZE 2, SysWrite 1 [111, 10] 2,
        SysRead 3 BUF_SIZE 0, SysClose 3]"
    by (simp add: m)
  from s v closes_only_the_device [OF s] show ?thesis by (intro conjI)
qed

end
